theory Spec2Isabelle
  imports Complex_Main
begin

section \<open>Floating-point values\<close>

text \<open>
  Every number of \<^verbatim>\<open>sort.py\<close> is a NumPy \<^verbatim>\<open>float64\<close>. The tracker tests its
  numbers for NaN (\<^verbatim>\<open>np.isnan\<close>) and for NaN or infinity (\<^verbatim>\<open>np.ma.masked_invalid\<close>),
  and NumPy arithmetic never raises: a division by zero or the square root of a negative
  number gives an infinity or NaN. So a value is a finite real, an infinity or NaN, and the
  operations follow the IEEE-754 rules for the special values. Two things are idealised:
  finite results are exact (there is no rounding, overflow or underflow), and zero has no
  sign (a nonzero number divided by zero takes the sign of the numerator).
\<close>

datatype fl = Fin real | PInf | NInf | NaN

definition inf_of_sign :: "real \<Rightarrow> fl" where
  "inf_of_sign a = (if 0 < a then PInf else if a < 0 then NInf else NaN)"

fun fneg :: "fl \<Rightarrow> fl" where
  "fneg (Fin a) = Fin (- a)"
| "fneg PInf = NInf"
| "fneg NInf = PInf"
| "fneg NaN = NaN"

fun fadd :: "fl \<Rightarrow> fl \<Rightarrow> fl" where
  "fadd (Fin a) (Fin b) = Fin (a + b)"
| "fadd NaN _ = NaN"
| "fadd _ NaN = NaN"
| "fadd PInf NInf = NaN"
| "fadd NInf PInf = NaN"
| "fadd PInf _ = PInf"
| "fadd _ PInf = PInf"
| "fadd NInf _ = NInf"
| "fadd _ NInf = NInf"

definition fsub :: "fl \<Rightarrow> fl \<Rightarrow> fl" where
  "fsub a b = fadd a (fneg b)"

fun fmul :: "fl \<Rightarrow> fl \<Rightarrow> fl" where
  "fmul (Fin a) (Fin b) = Fin (a * b)"
| "fmul NaN _ = NaN"
| "fmul _ NaN = NaN"
| "fmul (Fin a) PInf = inf_of_sign a"
| "fmul (Fin a) NInf = inf_of_sign (- a)"
| "fmul PInf (Fin b) = inf_of_sign b"
| "fmul NInf (Fin b) = inf_of_sign (- b)"
| "fmul PInf PInf = PInf"
| "fmul NInf NInf = PInf"
| "fmul PInf NInf = NInf"
| "fmul NInf PInf = NInf"

fun fdiv :: "fl \<Rightarrow> fl \<Rightarrow> fl" where
  "fdiv (Fin a) (Fin b) = (if b = 0 then inf_of_sign a else Fin (a / b))"
| "fdiv NaN _ = NaN"
| "fdiv _ NaN = NaN"
| "fdiv (Fin a) PInf = Fin 0"
| "fdiv (Fin a) NInf = Fin 0"
| "fdiv PInf (Fin b) = (if b < 0 then NInf else PInf)"
| "fdiv NInf (Fin b) = (if b < 0 then PInf else NInf)"
| "fdiv PInf PInf = NaN"
| "fdiv PInf NInf = NaN"
| "fdiv NInf PInf = NaN"
| "fdiv NInf NInf = NaN"

fun fsqrt :: "fl \<Rightarrow> fl" where
  "fsqrt (Fin a) = (if a < 0 then NaN else Fin (sqrt a))"
| "fsqrt PInf = PInf"
| "fsqrt NInf = NaN"
| "fsqrt NaN = NaN"

text \<open>Comparisons: every comparison with NaN is false.\<close>

fun flt :: "fl \<Rightarrow> fl \<Rightarrow> bool" where
  "flt (Fin a) (Fin b) = (a < b)"
| "flt NaN _ = False"
| "flt _ NaN = False"
| "flt _ NInf = False"
| "flt NInf _ = True"
| "flt PInf _ = False"
| "flt _ PInf = True"

fun fle :: "fl \<Rightarrow> fl \<Rightarrow> bool" where
  "fle (Fin a) (Fin b) = (a \<le> b)"
| "fle NaN _ = False"
| "fle _ NaN = False"
| "fle NInf _ = True"
| "fle _ PInf = True"
| "fle _ NInf = False"
| "fle PInf _ = False"

definition fgt :: "fl \<Rightarrow> fl \<Rightarrow> bool" where
  "fgt a b = flt b a"

text \<open>\<^verbatim>\<open>np.maximum\<close> and \<^verbatim>\<open>np.minimum\<close> propagate NaN.\<close>

definition fmaximum :: "fl \<Rightarrow> fl \<Rightarrow> fl" where
  "fmaximum a b = (if a = NaN \<or> b = NaN then NaN else if flt a b then b else a)"

definition fminimum :: "fl \<Rightarrow> fl \<Rightarrow> fl" where
  "fminimum a b = (if a = NaN \<or> b = NaN then NaN else if flt b a then b else a)"

definition isnan :: "fl \<Rightarrow> bool" where
  "isnan a = (a = NaN)"

fun isfinite :: "fl \<Rightarrow> bool" where
  "isfinite (Fin a) = True"
| "isfinite _ = False"

section \<open>Geometry utilities\<close>

text \<open>
  A NumPy vector is a list and \<^verbatim>\<open>v[i]\<close> is \<open>v ! i\<close>. The boxes of this program are
  rows of arrays whose width is fixed where they are built (6 for a detection, 7 for the
  row a track is created from, 6 for a predicted row, 8 for a filter state), so the
  indices below are in range.

  \<^verbatim>\<open>iou_batch\<close> broadcasts the two arrays against each other; its entry for one
  pair of boxes is \<open>iou\<close>.
\<close>

definition iou :: "fl list \<Rightarrow> fl list \<Rightarrow> fl" where
  "iou bb_test bb_gt =
    (let xx1 = fmaximum (bb_test ! 0) (bb_gt ! 0);
         yy1 = fmaximum (bb_test ! 1) (bb_gt ! 1);
         xx2 = fminimum (bb_test ! 2) (bb_gt ! 2);
         yy2 = fminimum (bb_test ! 3) (bb_gt ! 3);
         w = fmaximum (Fin 0) (fsub xx2 xx1);
         h = fmaximum (Fin 0) (fsub yy2 yy1);
         wh = fmul w h
     in fdiv wh
          (fsub (fadd (fmul (fsub (bb_test ! 2) (bb_test ! 0)) (fsub (bb_test ! 3) (bb_test ! 1)))
                      (fmul (fsub (bb_gt ! 2) (bb_gt ! 0)) (fsub (bb_gt ! 3) (bb_gt ! 1))))
                wh))"

definition iou_batch :: "fl list list \<Rightarrow> fl list list \<Rightarrow> fl list list" where
  "iou_batch bb_test bb_gt = map (\<lambda>t. map (\<lambda>g. iou t g) bb_gt) bb_test"

definition convert_bbox_to_z :: "fl list \<Rightarrow> fl list" where
  "convert_bbox_to_z bbox =
    (let w = fsub (bbox ! 2) (bbox ! 0);
         h = fsub (bbox ! 3) (bbox ! 1);
         x = fadd (bbox ! 0) (fdiv w (Fin 2));
         y = fadd (bbox ! 1) (fdiv h (Fin 2));
         s = fmul w h;
         conf = bbox ! 4;
         r = fdiv w h
     in [x, y, s, r, conf])"

definition convert_x_to_bbox :: "fl list \<Rightarrow> fl list" where
  "convert_x_to_bbox x =
    (let w = fsqrt (fmul (x ! 2) (x ! 3));
         h = fdiv (x ! 2) w
     in [fsub (x ! 0) (fdiv w (Fin 2)), fsub (x ! 1) (fdiv h (Fin 2)),
         fadd (x ! 0) (fdiv w (Fin 2)), fadd (x ! 1) (fdiv h (Fin 2)), x ! 4])"







section \<open>The libraries the tracker calls\<close>

text \<open>
  \<^verbatim>\<open>sort.py\<close> calls three functions that are not code of this repository:
  \<^verbatim>\<open>scipy.optimize.linear_sum_assignment\<close>, and, inside
  \<^verbatim>\<open>filterpy.kalman.KalmanFilter.update\<close>, \<^verbatim>\<open>numpy.linalg.inv\<close>. Both are
  parameters of the model, so that what is proved of the tracker holds for every
  behaviour of the two libraries, errors included: \<^verbatim>\<open>linear_sum_assignment\<close> returns
  the row indices and the column indices of an assignment or raises \<^verbatim>\<open>ValueError\<close>,
  \<^verbatim>\<open>inv\<close> returns a matrix or raises \<^verbatim>\<open>LinAlgError\<close>. An index out of range
  raises \<^verbatim>\<open>IndexError\<close>.
\<close>

datatype error = IndexError | ValueError | LinAlgError

record extlib =
  linear_sum_assignment :: "fl list list \<Rightarrow> error + (nat list \<times> nat list)"
  linalg_inv :: "fl list list \<Rightarrow> error + fl list list"

definition linear_assignment :: "extlib \<Rightarrow> fl list list \<Rightarrow> error + (nat \<times> nat) list" where
  "linear_assignment L cost_matrix =
    (case linear_sum_assignment L cost_matrix of
       Inl e \<Rightarrow> Inl e
     | Inr (x, y) \<Rightarrow> Inr (zip x y))"

section \<open>The Kalman filter\<close>

text \<open>
  Matrices are lists of rows. \<open>dot\<close> is the inner product, \<open>mat_vec\<close> and \<open>mat_mul\<close>
  are \<^verbatim>\<open>np.dot\<close> on a matrix and a vector and on two matrices.
\<close>

fun dot :: "fl list \<Rightarrow> fl list \<Rightarrow> fl" where
  "dot (a # u) (b # v) = fadd (fmul a b) (dot u v)"
| "dot _ _ = Fin 0"

definition mat_vec :: "fl list list \<Rightarrow> fl list \<Rightarrow> fl list" where
  "mat_vec M v = map (\<lambda>row. dot row v) M"

definition mat_mul :: "fl list list \<Rightarrow> fl list list \<Rightarrow> fl list list" where
  "mat_mul A B = map (\<lambda>row. map (\<lambda>col. dot row col) (transpose B)) A"

definition vec_add :: "fl list \<Rightarrow> fl list \<Rightarrow> fl list" where
  "vec_add u v = map2 fadd u v"

definition vec_sub :: "fl list \<Rightarrow> fl list \<Rightarrow> fl list" where
  "vec_sub u v = map2 fsub u v"

definition mat_add :: "fl list list \<Rightarrow> fl list list \<Rightarrow> fl list list" where
  "mat_add A B = map2 vec_add A B"

definition mat_sub :: "fl list list \<Rightarrow> fl list list \<Rightarrow> fl list list" where
  "mat_sub A B = map2 vec_sub A B"

definition eye :: "nat \<Rightarrow> fl list list" where
  "eye n = map (\<lambda>i. map (\<lambda>j. if i = j then Fin 1 else Fin 0) [0..<n]) [0..<n]"

text \<open>
  The matrices \<^verbatim>\<open>KalmanBoxTracker.__init__\<close> gives the filter. \<^verbatim>\<open>F\<close> and \<^verbatim>\<open>H\<close>
  are written out in the source. \<^verbatim>\<open>KalmanFilter(dim_x=8, dim_z=5)\<close> starts with
  \<^verbatim>\<open>R = eye(5)\<close>, \<^verbatim>\<open>P = eye(8)\<close> and \<^verbatim>\<open>Q = eye(8)\<close>, and the source scales them in
  place: \<^verbatim>\<open>R[2:,2:] *= 10.\<close>; \<^verbatim>\<open>P[5:,5:] *= 1000.\<close> then \<^verbatim>\<open>P *= 10.\<close>;
  \<^verbatim>\<open>Q[-1,-1] *= 0.5\<close> then \<^verbatim>\<open>Q[5:,5:] *= 0.5\<close>. The results are the diagonal
  matrices below.
\<close>

definition diag :: "real list \<Rightarrow> fl list list" where
  "diag ds = map (\<lambda>i. map (\<lambda>j. if i = j then Fin (ds ! i) else Fin 0) [0..<length ds])
                 [0..<length ds]"

definition kf_F :: "fl list list" where
  "kf_F = map (map Fin)
     [[1,0,0,0,0,1,0,0], [0,1,0,0,0,0,1,0], [0,0,1,0,0,0,0,1], [0,0,0,1,0,0,0,0],
      [0,0,0,0,1,0,0,0], [0,0,0,0,0,1,0,0], [0,0,0,0,0,0,1,0], [0,0,0,0,0,0,0,1]]"

definition kf_H :: "fl list list" where
  "kf_H = map (map Fin)
     [[1,0,0,0,0,0,0,0], [0,1,0,0,0,0,0,0], [0,0,1,0,0,0,0,0], [0,0,0,1,0,0,0,0],
      [0,0,0,0,1,0,0,0]]"

definition kf_R :: "fl list list" where
  "kf_R = diag [1, 1, 10, 10, 10]"

definition kf_P0 :: "fl list list" where
  "kf_P0 = diag [10, 10, 10, 10, 10, 10000, 10000, 10000]"

definition kf_Q :: "fl list list" where
  "kf_Q = diag [1, 1, 1, 1, 1, 1/2, 1/2, 1/4]"

text \<open>
  The state of a \<^verbatim>\<open>KalmanFilter\<close> that changes: the state vector \<^verbatim>\<open>x\<close> (8 values)
  and the covariance \<^verbatim>\<open>P\<close> (8 rows of 8). \<^verbatim>\<open>predict\<close> and \<^verbatim>\<open>update\<close> are
  filterpy's, called with no control input and with the filter's own \<^verbatim>\<open>F\<close>, \<^verbatim>\<open>Q\<close>,
  \<^verbatim>\<open>H\<close> and \<^verbatim>\<open>R\<close>:
  \<^verbatim>\<open>x = dot(F, x); P = dot(dot(F, P), F.T) + Q\<close> and
  \<^verbatim>\<open>y = z - dot(H, x); PHT = dot(P, H.T); S = dot(H, PHT) + R; K = dot(PHT, inv(S));
  x = x + dot(K, y); I_KH = I - dot(K, H); P = dot(dot(I_KH, P), I_KH.T) + dot(dot(K, R), K.T)\<close>.
\<close>

record kalman =
  kf_x :: "fl list"
  kf_P :: "fl list list"

definition KalmanFilter_predict :: "kalman \<Rightarrow> kalman" where
  "KalmanFilter_predict k =
     k\<lparr>kf_x := mat_vec kf_F (kf_x k),
       kf_P := mat_add (mat_mul (mat_mul kf_F (kf_P k)) (transpose kf_F)) kf_Q\<rparr>"

definition KalmanFilter_update :: "extlib \<Rightarrow> kalman \<Rightarrow> fl list \<Rightarrow> error + kalman" where
  "KalmanFilter_update L k z =
    (let y = vec_sub z (mat_vec kf_H (kf_x k));
         PHT = mat_mul (kf_P k) (transpose kf_H);
         S = mat_add (mat_mul kf_H PHT) kf_R
     in case linalg_inv L S of
          Inl e \<Rightarrow> Inl e
        | Inr SI \<Rightarrow>
           (let K = mat_mul PHT SI;
                x = vec_add (kf_x k) (mat_vec K y);
                I_KH = mat_sub (eye 8) (mat_mul K kf_H);
                P = mat_add (mat_mul (mat_mul I_KH (kf_P k)) (transpose I_KH))
                            (mat_mul (mat_mul K kf_R) (transpose K))
            in Inr (k\<lparr>kf_x := x, kf_P := P\<rparr>)))"

section \<open>One track: \<^verbatim>\<open>KalmanBoxTracker\<close>\<close>

text \<open>
  The fields of a \<^verbatim>\<open>KalmanBoxTracker\<close>. The counters are Python integers. The class
  attribute \<^verbatim>\<open>KalmanBoxTracker.count\<close> is shared by the whole process, so it is not
  a field: the constructor takes its value and returns the new one.
\<close>

record tracker =
  kf :: kalman
  time_since_update :: int
  trk_id :: int
  history :: "fl list list"
  hits :: int
  hit_streak :: int
  age :: int
  centroidarr :: "(fl \<times> fl) list"
  detclass :: fl
  bbox_history :: "fl list list"

text \<open>
  \<^verbatim>\<open>(a + b) // 2\<close> on \<^verbatim>\<open>float64\<close>: the floor of the quotient, NaN when the sum is
  not finite.
\<close>

fun floor_half :: "fl \<Rightarrow> fl" where
  "floor_half (Fin a) = Fin (of_int \<lfloor>a / 2\<rfloor>)"
| "floor_half _ = NaN"

definition centroid :: "fl list \<Rightarrow> fl \<times> fl" where
  "centroid bbox =
     (floor_half (fadd (bbox ! 0) (bbox ! 2)), floor_half (fadd (bbox ! 1) (bbox ! 3)))"

definition KalmanBoxTracker_init :: "int \<Rightarrow> fl list \<Rightarrow> int \<times> tracker" where
  "KalmanBoxTracker_init count bbox =
     (count + 1,
      \<lparr>kf = \<lparr>kf_x = convert_bbox_to_z bbox @ [Fin 0, Fin 0, Fin 0], kf_P = kf_P0\<rparr>,
       time_since_update = 0,
       trk_id = count,
       history = [],
       hits = 0,
       hit_streak = 0,
       age = 0,
       centroidarr = [centroid bbox],
       detclass = bbox ! 5,
       bbox_history = [bbox]\<rparr>)"

definition KalmanBoxTracker_update :: "extlib \<Rightarrow> tracker \<Rightarrow> fl list \<Rightarrow> error + tracker" where
  "KalmanBoxTracker_update L trk bbox =
    (case KalmanFilter_update L (kf trk) (convert_bbox_to_z bbox) of
       Inl e \<Rightarrow> Inl e
     | Inr k \<Rightarrow>
         Inr (trk\<lparr>time_since_update := 0,
                  history := [],
                  hits := hits trk + 1,
                  hit_streak := hit_streak trk + 1,
                  kf := k,
                  detclass := bbox ! 5,
                  centroidarr := centroidarr trk @ [centroid bbox],
                  bbox_history := bbox_history trk @ [bbox]\<rparr>))"

text \<open>
  \<^verbatim>\<open>predict\<close> changes the track and returns the predicted box, the last entry of
  \<^verbatim>\<open>history\<close>.
\<close>

definition KalmanBoxTracker_predict :: "tracker \<Rightarrow> tracker \<times> fl list" where
  "KalmanBoxTracker_predict trk =
    (let x = kf_x (kf trk);
         x' = (if fle (fadd (x ! 7) (x ! 2)) (Fin 0) then x[7 := fmul (x ! 7) (Fin 0)] else x);
         k = KalmanFilter_predict ((kf trk)\<lparr>kf_x := x'\<rparr>);
         box = convert_x_to_bbox (kf_x k)
     in (trk\<lparr>kf := k,
             age := age trk + 1,
             hit_streak := (if time_since_update trk > 0 then 0 else hit_streak trk),
             time_since_update := time_since_update trk + 1,
             history := history trk @ [box]\<rparr>,
         box))"

definition KalmanBoxTracker_get_state :: "tracker \<Rightarrow> fl list" where
  "KalmanBoxTracker_get_state trk =
     convert_x_to_bbox (kf_x (kf trk))
       @ [detclass trk, kf_x (kf trk) ! 5, kf_x (kf trk) ! 6, kf_x (kf trk) ! 7]"

section \<open>Association\<close>

text \<open>
  \<^verbatim>\<open>a = (iou_matrix > iou_threshold).astype(np.int32)\<close>, its row sums \<^verbatim>\<open>a.sum(1)\<close>,
  its column sums \<^verbatim>\<open>a.sum(0)\<close>, the maximum of an array of counts (the array is not
  empty where the source takes it) and \<^verbatim>\<open>np.stack(np.where(a), axis=1)\<close>, the index
  pairs of the nonzero entries in row-major order.
\<close>

definition threshold_matrix :: "fl list list \<Rightarrow> fl \<Rightarrow> nat list list" where
  "threshold_matrix iou_matrix iou_threshold =
     map (map (\<lambda>v. if fgt v iou_threshold then 1 else 0)) iou_matrix"

definition max_count :: "nat list \<Rightarrow> nat" where
  "max_count ns = foldr max ns 0"

definition where_nonzero :: "nat list list \<Rightarrow> (nat \<times> nat) list" where
  "where_nonzero a =
     concat (map (\<lambda>d. map (\<lambda>t. (d, t)) (filter (\<lambda>t. a ! d ! t \<noteq> 0) [0..<length (a ! d)]))
                 [0..<length a])"

text \<open>
  Lines 127 to 134: the indices handed to the rest of the function. The result of
  \<^verbatim>\<open>linear_assignment\<close> is \<^verbatim>\<open>np.array(list(zip(x, y)))\<close>, which has one dimension
  when the list is empty, and then \<^verbatim>\<open>matched_indices[:,0]\<close> at line 138 raises
  \<^verbatim>\<open>IndexError\<close>.
\<close>

definition general_path :: "extlib \<Rightarrow> fl list list \<Rightarrow> error + (nat \<times> nat) list" where
  "general_path L iou_matrix =
    (case linear_assignment L (map (map fneg) iou_matrix) of
       Inl e \<Rightarrow> Inl e
     | Inr mi \<Rightarrow> if mi = [] then Inl IndexError else Inr mi)"

definition matched_indices ::
  "extlib \<Rightarrow> fl list list \<Rightarrow> nat \<Rightarrow> nat \<Rightarrow> fl \<Rightarrow> error + (nat \<times> nat) list" where
  "matched_indices L iou_matrix nd nt iou_threshold =
    (if min nd nt > 0 then
       (let a = threshold_matrix iou_matrix iou_threshold
        in if max_count (map sum_list a) = 1 \<and> max_count (map sum_list (transpose a)) = 1
           then Inr (where_nonzero a)
           else general_path L iou_matrix)
     else Inr [])"

text \<open>
  Lines 147 to 153, the loop that filters out the pairs with a low IoU; the accumulator
  holds \<^verbatim>\<open>matches\<close>, \<^verbatim>\<open>unmatched_detections\<close> and \<^verbatim>\<open>unmatched_trackers\<close>.
\<close>

fun filter_matches ::
  "fl list list \<Rightarrow> fl \<Rightarrow> (nat \<times> nat) list \<Rightarrow> (nat \<times> nat) list \<times> nat list \<times> nat list
     \<Rightarrow> error + ((nat \<times> nat) list \<times> nat list \<times> nat list)" where
  "filter_matches iou_matrix iou_threshold [] acc = Inr acc"
| "filter_matches iou_matrix iou_threshold (m # ms) (matches, ud, ut) =
    (if fst m < length iou_matrix \<and> snd m < length (iou_matrix ! fst m) then
       (if flt (iou_matrix ! fst m ! snd m) iou_threshold
        then filter_matches iou_matrix iou_threshold ms (matches, ud @ [fst m], ut @ [snd m])
        else filter_matches iou_matrix iou_threshold ms (matches @ [m], ud, ut))
     else Inl IndexError)"

definition post_filter ::
  "fl list list \<Rightarrow> nat \<Rightarrow> nat \<Rightarrow> fl \<Rightarrow> (nat \<times> nat) list
     \<Rightarrow> error + ((nat \<times> nat) list \<times> nat list \<times> nat list)" where
  "post_filter iou_matrix nd nt iou_threshold mi =
    (let unmatched_detections = filter (\<lambda>d. d \<notin> set (map fst mi)) [0..<nd];
         unmatched_trackers = filter (\<lambda>t. t \<notin> set (map snd mi)) [0..<nt]
     in filter_matches iou_matrix iou_threshold mi ([], unmatched_detections, unmatched_trackers))"

definition associate_detections_to_trackers ::
  "extlib \<Rightarrow> fl list list \<Rightarrow> fl list list \<Rightarrow> fl
     \<Rightarrow> error + ((nat \<times> nat) list \<times> nat list \<times> nat list)" where
  "associate_detections_to_trackers L detections trackers iou_threshold =
    (if length trackers = 0 then Inr ([], [0..<length detections], [])
     else
       (let iou_matrix = iou_batch detections trackers
        in case matched_indices L iou_matrix (length detections) (length trackers) iou_threshold of
             Inl e \<Rightarrow> Inl e
           | Inr mi \<Rightarrow>
               post_filter iou_matrix (length detections) (length trackers) iou_threshold mi))"

text \<open>
  The association the spec calls the general path followed by the post-filter: the
  function above without the shortcut of lines 128 to 130.
\<close>

definition associate_general ::
  "extlib \<Rightarrow> fl list list \<Rightarrow> fl list list \<Rightarrow> fl
     \<Rightarrow> error + ((nat \<times> nat) list \<times> nat list \<times> nat list)" where
  "associate_general L detections trackers iou_threshold =
    (if length trackers = 0 then Inr ([], [0..<length detections], [])
     else
       (let iou_matrix = iou_batch detections trackers
        in case (if min (length detections) (length trackers) > 0
                 then general_path L iou_matrix else Inr []) of
             Inl e \<Rightarrow> Inl e
           | Inr mi \<Rightarrow>
               post_filter iou_matrix (length detections) (length trackers) iou_threshold mi))"

section \<open>The track manager: \<^verbatim>\<open>Sort\<close>\<close>

record sort =
  max_age :: int
  min_hits :: int
  iou_threshold :: fl
  trackers :: "tracker list"
  frame_count :: int

definition Sort_init :: "int \<Rightarrow> int \<Rightarrow> fl \<Rightarrow> sort" where
  "Sort_init ma mh thr =
     \<lparr>max_age = ma, min_hits = mh, iou_threshold = thr, trackers = [], frame_count = 0\<rparr>"

text \<open>A two-dimensional array as \<^verbatim>\<open>Sort.update\<close> returns it: its shape and its rows.\<close>

record array2 =
  shape :: "nat \<times> nat"
  rows :: "fl list list"

text \<open>\<^verbatim>\<open>xs.pop(i)\<close> for an index in range.\<close>

definition pop :: "'a list \<Rightarrow> nat \<Rightarrow> 'a list" where
  "pop xs i = take i xs @ drop (Suc i) xs"

text \<open>
  Lines 182 to 186: every track predicts, in order; the loop collects the tracks as
  \<^verbatim>\<open>predict\<close> left them, the rows \<^verbatim>\<open>[pos[0], pos[1], pos[2], pos[3], pos[4], 0]\<close> of
  \<^verbatim>\<open>trks\<close>, and in \<^verbatim>\<open>to_del\<close> the indices of the tracks whose predicted box holds a
  NaN. The second argument is the index \<^verbatim>\<open>t\<close> of the first track of the list.
\<close>

fun predict_loop :: "tracker list \<Rightarrow> nat \<Rightarrow> tracker list \<times> fl list list \<times> nat list" where
  "predict_loop [] t = ([], [], [])"
| "predict_loop (trk # rest) t =
    (let (trk', pos) = KalmanBoxTracker_predict trk;
         (rest', trks, to_del) = predict_loop rest (Suc t)
     in (trk' # rest',
         [pos ! 0, pos ! 1, pos ! 2, pos ! 3, pos ! 4, Fin 0] # trks,
         (if list_ex isnan pos then t # to_del else to_del)))"

text \<open>
  \<^verbatim>\<open>np.ma.compress_rows(np.ma.masked_invalid(trks))\<close>: the rows without a NaN and
  without an infinity.
\<close>

definition compress_rows_masked_invalid :: "fl list list \<Rightarrow> fl list list" where
  "compress_rows_masked_invalid trks = filter (list_all isfinite) trks"

text \<open>Lines 188 and 189: \<^verbatim>\<open>for t in reversed(to_del): self.trackers.pop(t)\<close>.\<close>

definition delete_tracks :: "tracker list \<Rightarrow> nat list \<Rightarrow> tracker list" where
  "delete_tracks trks to_del = foldl pop trks (rev to_del)"

text \<open>Lines 193 and 194: the matched tracks are corrected, one pair after the other.\<close>

fun update_matched ::
  "extlib \<Rightarrow> fl list list \<Rightarrow> tracker list \<Rightarrow> (nat \<times> nat) list \<Rightarrow> error + tracker list" where
  "update_matched L dets trks [] = Inr trks"
| "update_matched L dets trks (m # ms) =
    (if snd m < length trks \<and> fst m < length dets then
       (case KalmanBoxTracker_update L (trks ! snd m) (dets ! fst m) of
          Inl e \<Rightarrow> Inl e
        | Inr trk \<Rightarrow> update_matched L dets (trks[snd m := trk]) ms)
     else Inl IndexError)"

text \<open>
  Lines 197 to 199: a new track for every unmatched detection, from the row
  \<^verbatim>\<open>np.hstack((dets[i,:], np.array([0])))\<close>.
\<close>

fun create_trackers ::
  "int \<Rightarrow> fl list list \<Rightarrow> tracker list \<Rightarrow> nat list \<Rightarrow> error + (int \<times> tracker list)" where
  "create_trackers count dets trks [] = Inr (count, trks)"
| "create_trackers count dets trks (i # is) =
    (if i < length dets then
       (let (count', trk) = KalmanBoxTracker_init count (dets ! i @ [Fin 0])
        in create_trackers count' dets (trks @ [trk]) is)
     else Inl IndexError)"

text \<open>
  Lines 177 to 199, up to the loop that emits: the new value of
  \<^verbatim>\<open>KalmanBoxTracker.count\<close> and of \<^verbatim>\<open>self.trackers\<close>.
\<close>

definition Sort_update_tracks ::
  "extlib \<Rightarrow> int \<Rightarrow> sort \<Rightarrow> fl list list \<Rightarrow> error + (int \<times> tracker list)" where
  "Sort_update_tracks L count s dets =
    (let (predicted, rows, to_del) = predict_loop (trackers s) 0;
         trks = compress_rows_masked_invalid rows;
         live = delete_tracks predicted to_del
     in case associate_detections_to_trackers L dets trks (iou_threshold s) of
          Inl e \<Rightarrow> Inl e
        | Inr (matched, unmatched_dets, unmatched_trackers) \<Rightarrow>
           (case update_matched L dets live matched of
              Inl e \<Rightarrow> Inl e
            | Inr updated \<Rightarrow> create_trackers count dets updated unmatched_dets))"

text \<open>
  Lines 201 to 212. The iterator of \<^verbatim>\<open>reversed(self.trackers)\<close> holds an index that
  starts at \<^verbatim>\<open>len(self.trackers) - 1\<close>, yields the item at that index and goes down by
  one, and stops when the index is negative or not below the current length of the
  list. The variable \<^verbatim>\<open>i\<close> starts at the length and goes down by one before it is
  used, so it equals the iterator's index at every \<^verbatim>\<open>pop\<close>; the third argument is that
  index plus one. The call of \<^verbatim>\<open>print\<close> is left out.
\<close>

definition emitted_row :: "tracker \<Rightarrow> fl list" where
  "emitted_row trk = KalmanBoxTracker_get_state trk @ [Fin (of_int (trk_id trk))]"

fun emit_loop ::
  "int \<Rightarrow> int \<Rightarrow> nat \<Rightarrow> tracker list \<Rightarrow> fl list list \<Rightarrow> tracker list \<times> fl list list" where
  "emit_loop ma mh 0 trks ret = (trks, ret)"
| "emit_loop ma mh (Suc i) trks ret =
    (if i < length trks then
       (let trk = trks ! i;
            ret' = (if time_since_update trk < ma \<and> hits trk \<ge> mh
                    then ret @ [emitted_row trk] else ret);
            trks' = (if time_since_update trk > ma then pop trks i else trks)
        in emit_loop ma mh i trks' ret')
     else (trks, ret))"

definition Sort_update ::
  "extlib \<Rightarrow> int \<Rightarrow> sort \<Rightarrow> fl list list \<Rightarrow> error + (int \<times> sort \<times> array2)" where
  "Sort_update L count s dets =
    (case Sort_update_tracks L count s dets of
       Inl e \<Rightarrow> Inl e
     | Inr (count', trks) \<Rightarrow>
        (let (trks', ret) = emit_loop (max_age s) (min_hits s) (length trks) trks []
         in Inr (count',
                 s\<lparr>trackers := trks', frame_count := frame_count s + 1\<rparr>,
                 if length ret > 0
                 then \<lparr>shape = (length ret, length (hd ret)), rows = ret\<rparr>
                 else \<lparr>shape = (0, 6), rows = []\<rparr>)))"

text \<open>Consecutive steps: the outputs of all of them, and the last state.\<close>

fun Sort_run ::
  "extlib \<Rightarrow> int \<Rightarrow> sort \<Rightarrow> fl list list list \<Rightarrow> error + (int \<times> sort \<times> array2 list)" where
  "Sort_run L count s [] = Inr (count, s, [])"
| "Sort_run L count s (dets # rest) =
    (case Sort_update L count s dets of
       Inl e \<Rightarrow> Inl e
     | Inr (count', s', out) \<Rightarrow>
        (case Sort_run L count' s' rest of
           Inl e \<Rightarrow> Inl e
         | Inr (count'', s'', outs) \<Rightarrow> Inr (count'', s'', out # outs)))"

section \<open>Reference implementations of the two library functions\<close>

text \<open>
  For the scenarios that are run on concrete inputs the two library functions need
  values. These are written from the documented contracts of the libraries, in the exact
  arithmetic of this model.

  \<^verbatim>\<open>linear_sum_assignment\<close> returns an assignment of minimum total cost, each row of
  the smaller side paired with a different column, the row indices in increasing order,
  and raises \<^verbatim>\<open>ValueError\<close> on a matrix with a NaN or an infinity. The reference
  enumerates every assignment and takes the first of minimum cost; where several
  assignments have the minimum cost the library's choice may be another one.
\<close>

fun assignments :: "nat list \<Rightarrow> nat list \<Rightarrow> (nat \<times> nat) list list" where
  "assignments [] cs = [[]]"
| "assignments (r # rs) cs =
     concat (map (\<lambda>c. map (\<lambda>as. (r, c) # as) (assignments rs (remove1 c cs))) cs)"

definition assignment_cost :: "fl list list \<Rightarrow> (nat \<times> nat) list \<Rightarrow> fl" where
  "assignment_cost C as = foldr (\<lambda>m acc. fadd (C ! fst m ! snd m) acc) as (Fin 0)"

fun first_minimum :: "fl list list \<Rightarrow> (nat \<times> nat) list \<Rightarrow> (nat \<times> nat) list list \<Rightarrow> (nat \<times> nat) list" where
  "first_minimum C best [] = best"
| "first_minimum C best (cand # cands) =
     first_minimum C (if flt (assignment_cost C cand) (assignment_cost C best) then cand else best)
       cands"

definition ref_linear_sum_assignment :: "fl list list \<Rightarrow> error + (nat list \<times> nat list)" where
  "ref_linear_sum_assignment C =
    (if list_ex (list_ex (\<lambda>v. \<not> isfinite v)) C then Inl ValueError
     else
       (let nr = length C;
            nc = (case C of [] \<Rightarrow> 0 | row # _ \<Rightarrow> length row);
            cands = (if nr \<le> nc then assignments [0..<nr] [0..<nc]
                     else map (\<lambda>as. sort_key fst (map prod.swap as))
                              (assignments [0..<nc] [0..<nr]));
            best = (case cands of [] \<Rightarrow> [] | cand # rest \<Rightarrow> first_minimum C cand rest)
        in Inr (map fst best, map snd best)))"

text \<open>
  \<^verbatim>\<open>numpy.linalg.inv\<close> returns the inverse of a square matrix and raises
  \<^verbatim>\<open>LinAlgError\<close> when the matrix is singular. The reference is Gauss-Jordan
  elimination on the matrix extended by the identity; the pivot of a column is the first
  entry at or below the diagonal that is not zero, which in exact arithmetic gives the
  same inverse as any other choice of pivot.
\<close>

fun find_pivot :: "fl list list \<Rightarrow> nat \<Rightarrow> nat \<Rightarrow> nat option" where
  "find_pivot [] k i = None"
| "find_pivot (row # rest) k i =
     (if row ! k \<noteq> Fin 0 then Some i else find_pivot rest k (Suc i))"

definition eliminate :: "fl list list \<Rightarrow> nat \<Rightarrow> fl list list" where
  "eliminate M k =
    (let pr = map (\<lambda>v. fdiv v (M ! k ! k)) (M ! k)
     in map (\<lambda>i. if i = k then pr
                  else map2 (\<lambda>v p. fsub v (fmul (M ! i ! k) p)) (M ! i) pr)
            [0..<length M])"

fun gauss_jordan :: "nat \<Rightarrow> nat \<Rightarrow> fl list list \<Rightarrow> error + fl list list" where
  "gauss_jordan 0 k M = Inr M"
| "gauss_jordan (Suc n) k M =
    (case find_pivot (drop k M) k k of
       None \<Rightarrow> Inl LinAlgError
     | Some p \<Rightarrow> gauss_jordan n (Suc k) (eliminate (M[k := M ! p, p := M ! k]) k))"

definition ref_inv :: "fl list list \<Rightarrow> error + fl list list" where
  "ref_inv M =
    (case gauss_jordan (length M) 0 (map2 (@) M (eye (length M))) of
       Inl e \<Rightarrow> Inl e
     | Inr A \<Rightarrow> Inr (map (drop (length M)) A))"

definition ref_lib :: extlib where
  "ref_lib = \<lparr>linear_sum_assignment = ref_linear_sum_assignment, linalg_inv = ref_inv\<rparr>"

section \<open>A stationary object\<close>

text \<open>
  The inputs of the scenarios that are run: the detection \<open>(0, 0, 10, 10, 0.9, 0)\<close>, the
  measurement and the filter state it converts to, the box the state converts back to,
  and a tracker with the default configuration (\<open>max_age = 1\<close>, \<open>min_hits = 3\<close>,
  \<open>iou_threshold = 0.3\<close>) that holds the given tracks.
\<close>

definition det0 :: "fl list" where
  "det0 = [Fin 0, Fin 0, Fin 10, Fin 10, Fin (9/10), Fin 0]"

definition z0 :: "fl list" where
  "z0 = [Fin 5, Fin 5, Fin 100, Fin 1, Fin (9/10)]"

definition x0 :: "fl list" where
  "x0 = [Fin 5, Fin 5, Fin 100, Fin 1, Fin (9/10), Fin 0, Fin 0, Fin 0]"

definition box0 :: "fl list" where
  "box0 = [Fin 0, Fin 0, Fin 10, Fin 10, Fin (9/10)]"

definition default_tracker :: "tracker list \<Rightarrow> int \<Rightarrow> sort" where
  "default_tracker trks n =
     \<lparr>max_age = 1, min_hits = 3, iou_threshold = Fin (3/10), trackers = trks, frame_count = n\<rparr>"

text \<open>
  The covariance of the filter of a track created from \<open>det0\<close> after one, two and three
  steps that each predict and correct with \<open>det0\<close>, and after a step that only predicts
  followed by a step that predicts and corrects.
\<close>

definition P_after1 :: "fl list list" where
  "P_after1 = map (map Fin)
    [[10011 / 10012, 0, 0, 0, 0, 2500 / 2503, 0, 0],
     [0, 10011 / 10012, 0, 0, 0, 0, 2500 / 2503, 0],
     [0, 0, 100110 / 10021, 0, 0, 0, 0, 100000 / 10021],
     [0, 0, 0, 110 / 21, 0, 0, 0, 0],
     [0, 0, 0, 0, 110 / 21, 0, 0, 0],
     [2500 / 2503, 0, 0, 0, 0, 62503 / 5006, 0, 0],
     [0, 2500 / 2503, 0, 0, 0, 0, 62503 / 5006, 0],
     [0, 0, 100000 / 10021, 0, 0, 0, 0, 850021 / 40084]]"

definition P_after2 :: "fl list list" where
  "P_after2 = map (map Fin)
    [[165029 / 175041, 0, 0, 0, 0, 45002 / 58347, 0, 0],
     [0, 165029 / 175041, 0, 0, 0, 0, 45002 / 58347, 0],
     [0, 0, 4181090 / 498277, 0, 0, 0, 0, 2500042 / 498277],
     [0, 0, 0, 1310 / 341, 0, 0, 0, 0],
     [0, 0, 0, 0, 1310 / 341, 0, 0, 0],
     [45002 / 58347, 0, 0, 0, 0, 50282 / 19449, 0, 0],
     [0, 45002 / 58347, 0, 0, 0, 0, 50282 / 19449, 0],
     [0, 0, 2500042 / 498277, 0, 0, 0, 0, 57892749 / 9965540]]"

definition P_after3 :: "fl list list" where
  "P_after3 = map (map Fin)
    [[1062620 / 1237661, 0, 0, 0, 0, 587544 / 1237661, 0, 0],
     [0, 1062620 / 1237661, 0, 0, 0, 0, 587544 / 1237661, 0],
     [0, 0, 2514817690 / 351137169, 0, 0, 0, 0, 1078935890 / 351137169],
     [0, 0, 0, 16510 / 5061, 0, 0, 0, 0],
     [0, 0, 0, 0, 16510 / 5061, 0, 0, 0],
     [587544 / 1237661, 0, 0, 0, 0, 3692865 / 2475322, 0, 0],
     [0, 587544 / 1237661, 0, 0, 0, 0, 3692865 / 2475322, 0],
     [0, 0, 1078935890 / 351137169, 0, 0, 0, 0, 3838060885 / 1404548676]]"

definition P_after_miss :: "fl list list" where
  "P_after_miss = map (map Fin)
    [[80025 / 80027, 0, 0, 0, 0, 40001 / 80027, 0, 0],
     [0, 80025 / 80027, 0, 0, 0, 0, 40001 / 80027, 0],
     [0, 0, 1600490 / 160089, 0, 0, 0, 0, 266670 / 53363],
     [0, 0, 0, 60 / 11, 0, 0, 0, 0],
     [0, 0, 0, 0, 60 / 11, 0, 0, 0],
     [40001 / 80027, 0, 0, 0, 0, 620053 / 160054, 0, 0],
     [0, 40001 / 80027, 0, 0, 0, 0, 620053 / 160054, 0],
     [0, 0, 266670 / 53363, 0, 0, 0, 0, 1240059 / 213452]]"

text \<open>
  The track created from \<open>det0\<close> with identity 0 after \<open>n\<close> steps that each predicted
  and corrected it with \<open>det0\<close>, its covariance being \<open>P\<close> (\<open>n = 0\<close> and \<open>P = kf_P0\<close>: the
  track as it is created); and the track created from \<open>det0\<close> after one step without a
  detection.
\<close>

definition track_after :: "nat \<Rightarrow> fl list list \<Rightarrow> tracker" where
  "track_after n P =
     \<lparr>kf = \<lparr>kf_x = x0, kf_P = P\<rparr>, time_since_update = 0, trk_id = 0, history = [],
      hits = int n, hit_streak = int n, age = int n,
      centroidarr = replicate (Suc n) (Fin 5, Fin 5), detclass = Fin 0,
      bbox_history = (det0 @ [Fin 0]) # replicate n det0\<rparr>"

definition track_missed :: tracker where
  "track_missed =
     \<lparr>kf = KalmanFilter_predict \<lparr>kf_x = x0, kf_P = kf_P0\<rparr>, time_since_update = 1, trk_id = 0,
      history = [box0], hits = 0, hit_streak = 0, age = 1,
      centroidarr = [(Fin 5, Fin 5)], detclass = Fin 0, bbox_history = [det0 @ [Fin 0]]\<rparr>"

definition track_recovered :: tracker where
  "track_recovered =
     \<lparr>kf = \<lparr>kf_x = x0, kf_P = P_after_miss\<rparr>, time_since_update = 0, trk_id = 0,
      history = [], hits = 1, hit_streak = 1, age = 2,
      centroidarr = [(Fin 5, Fin 5), (Fin 5, Fin 5)], detclass = Fin 0,
      bbox_history = [det0 @ [Fin 0], det0]\<rparr>"

text \<open>The two outputs of the scenarios: no row, and the row of the track at \<open>x0\<close>.\<close>

definition no_rows :: array2 where
  "no_rows = \<lparr>shape = (0, 6), rows = []\<rparr>"

definition one_row :: array2 where
  "one_row = \<lparr>shape = (1, 10),
              rows = [[Fin 0, Fin 0, Fin 10, Fin 10, Fin (9/10), Fin 0, Fin 0, Fin 0, Fin 0, Fin 0]]\<rparr>"

text \<open>
  A second object, away from the first, and the track created from it with identity 1.
\<close>

definition det1 :: "fl list" where
  "det1 = [Fin 20, Fin 20, Fin 30, Fin 30, Fin (8/10), Fin 1]"

definition track_second :: tracker where
  "track_second =
     \<lparr>kf = \<lparr>kf_x = [Fin 25, Fin 25, Fin 100, Fin 1, Fin (8/10), Fin 0, Fin 0, Fin 0],
             kf_P = kf_P0\<rparr>,
      time_since_update = 0, trk_id = 1, history = [], hits = 0, hit_streak = 0, age = 0,
      centroidarr = [(Fin 25, Fin 25)], detclass = Fin 1, bbox_history = [det1 @ [Fin 0]]\<rparr>"

section \<open>A track whose predicted box is infinite\<close>

text \<open>
  The detection \<open>(-5e-163, -1e162, 5e-163, 1e162, 0.9, 0)\<close> has positive width and
  height. In \<^verbatim>\<open>float64\<close> its width is \<open>1e-162\<close>, its height \<open>2e162\<close>, its centre
  \<open>(0, 0)\<close>, its area 2 up to rounding, and its aspect ratio \<open>5e-325\<close> rounds to
  \<open>0.0\<close>, below the smallest positive \<^verbatim>\<open>float64\<close>. The exact arithmetic of this model
  does not underflow, so the track that \<^verbatim>\<open>KalmanBoxTracker.__init__\<close> makes of this
  detection is given here as \<^verbatim>\<open>float64\<close> computes it: \<open>track_flat\<close>, with identity 0.
  Next to it \<open>track_other\<close>, the track created from \<open>det0\<close> with identity 1. The last two
  definitions are these tracks after the step studied below.
\<close>

definition det_thin :: "fl list" where
  "det_thin = [Fin (- (5 / 10 ^ 163)), Fin (- (10 ^ 162)), Fin (5 / 10 ^ 163), Fin (10 ^ 162),
               Fin (9/10), Fin 0]"

definition x_flat :: "fl list" where
  "x_flat = [Fin 0, Fin 0, Fin 2, Fin 0, Fin (9/10), Fin 0, Fin 0, Fin 0]"

definition track_flat :: tracker where
  "track_flat =
     \<lparr>kf = \<lparr>kf_x = x_flat, kf_P = kf_P0\<rparr>, time_since_update = 0, trk_id = 0, history = [],
      hits = 0, hit_streak = 0, age = 0, centroidarr = [(Fin 0, Fin 0)], detclass = Fin 0,
      bbox_history = [det_thin @ [Fin 0]]\<rparr>"

definition track_other :: tracker where
  "track_other =
     \<lparr>kf = \<lparr>kf_x = x0, kf_P = kf_P0\<rparr>, time_since_update = 0, trk_id = 1, history = [],
      hits = 0, hit_streak = 0, age = 0, centroidarr = [(Fin 5, Fin 5)], detclass = Fin 0,
      bbox_history = [det0 @ [Fin 0]]\<rparr>"

definition track_flat_corrected :: tracker where
  "track_flat_corrected =
     \<lparr>kf = \<lparr>kf_x = map Fin [50055 / 10012, 50055 / 10012, 1001120 / 10021, 11 / 21, 9 / 10,
                            12500 / 2503, 12500 / 2503, 980000 / 10021],
             kf_P = P_after1\<rparr>,
      time_since_update = 0, trk_id = 0, history = [], hits = 1, hit_streak = 1, age = 1,
      centroidarr = [(Fin 0, Fin 0), (Fin 5, Fin 5)], detclass = Fin 0,
      bbox_history = [det_thin @ [Fin 0], det0]\<rparr>"

definition track_other_missed :: tracker where
  "track_other_missed =
     \<lparr>kf = KalmanFilter_predict \<lparr>kf_x = x0, kf_P = kf_P0\<rparr>, time_since_update = 1, trk_id = 1,
      history = [box0], hits = 0, hit_streak = 0, age = 1,
      centroidarr = [(Fin 5, Fin 5)], detclass = Fin 0, bbox_history = [det0 @ [Fin 0]]\<rparr>"

section \<open>Notions used to state the properties\<close>

text \<open>
  What \<^verbatim>\<open>Sort.update\<close> sees of one track in its first loop: whether the predicted
  box of the track holds a NaN, and the row of \<^verbatim>\<open>trks\<close> the track gets.
\<close>

definition has_nan :: "tracker \<Rightarrow> bool" where
  "has_nan trk = list_ex isnan (snd (KalmanBoxTracker_predict trk))"

definition predicted_row :: "tracker \<Rightarrow> fl list" where
  "predicted_row trk =
     (let pos = snd (KalmanBoxTracker_predict trk)
      in [pos ! 0, pos ! 1, pos ! 2, pos ! 3, pos ! 4, Fin 0])"

text \<open>
  What the corrections of one step can do to a track: nothing, or at least one
  correction, after which \<^verbatim>\<open>time_since_update\<close> is 0 and \<^verbatim>\<open>hits\<close> has grown. The
  identity stays.
\<close>

definition upd_rel :: "tracker \<Rightarrow> tracker \<Rightarrow> bool" where
  "upd_rel a b =
     (trk_id b = trk_id a \<and> (b = a \<or> (time_since_update b = 0 \<and> hits a < hits b)))"

text \<open>The two gates of the last loop of \<^verbatim>\<open>Sort.update\<close>.\<close>

definition emission_gate :: "sort \<Rightarrow> tracker \<Rightarrow> bool" where
  "emission_gate s trk = (time_since_update trk < max_age s \<and> min_hits s \<le> hits trk)"

definition evicted :: "sort \<Rightarrow> tracker \<Rightarrow> bool" where
  "evicted s trk = (max_age s < time_since_update trk)"

text \<open>
  The pairs (detection index, track index) whose IoU exceeds the threshold, in row-major
  order: what the shortcut of lines 128 to 130 takes as the matching.
\<close>

definition over_threshold :: "fl list list \<Rightarrow> fl list list \<Rightarrow> fl \<Rightarrow> (nat \<times> nat) list" where
  "over_threshold dets trks thr = where_nonzero (threshold_matrix (iou_batch dets trks) thr)"

text \<open>
  Two detections and two predicted boxes, all one unit high: the first detection
  overlaps the first box by a third and the second box by a quarter, the second
  detection overlaps the first box by a quarter and the second box not at all. And two
  detections with two predicted boxes of which the first pair coincides and the second
  pair overlaps by a ninth.
\<close>

definition dets_cross :: "fl list list" where
  "dets_cross = [[Fin 0, Fin 0, Fin 10, Fin 1, Fin (9/10), Fin 0],
                 [Fin 11, Fin 0, Fin 21, Fin 1, Fin (9/10), Fin 0]]"

definition trks_cross :: "fl list list" where
  "trks_cross = [[Fin 5, Fin 0, Fin 15, Fin 1, Fin (9/10), Fin 0],
                 [Fin (- 6), Fin 0, Fin 4, Fin 1, Fin (9/10), Fin 0]]"

definition dets_pair :: "fl list list" where
  "dets_pair = [det0, det1]"

definition trks_pair :: "fl list list" where
  "trks_pair = [[Fin 0, Fin 0, Fin 10, Fin 10, Fin (9/10), Fin 0],
                [Fin 28, Fin 20, Fin 38, Fin 30, Fin (8/10), Fin 0]]"

section \<open>Properties of the geometry utilities\<close>

lemma fsub_Fin [simp]: "fsub (Fin a) (Fin b) = Fin (a - b)"
  by (simp add: fsub_def)

lemma fmaximum_Fin [simp]: "fmaximum (Fin a) (Fin b) = Fin (max a b)"
  by (simp add: fmaximum_def max_def)

lemma fminimum_Fin [simp]: "fminimum (Fin a) (Fin b) = Fin (min a b)"
  by (simp add: fminimum_def min_def)















section \<open>The loops of \<^verbatim>\<open>Sort.update\<close>\<close>

lemma emit_loop_eq:
  "n \<le> length trks \<Longrightarrow>
   emit_loop ma mh n trks ret =
     (filter (\<lambda>t. \<not> time_since_update t > ma) (take n trks) @ drop n trks,
      ret @ map emitted_row
              (rev (filter (\<lambda>t. time_since_update t < ma \<and> hits t \<ge> mh) (take n trks))))"
proof (induction n arbitrary: trks ret)
  case 0
  then show ?case by simp
next
  case (Suc n)
  then have n: "n < length trks" by simp
  have tk: "take (Suc n) trks = take n trks @ [trks ! n]"
    using n by (simp add: take_Suc_conv_app_nth)
  show ?case
  proof (cases "time_since_update (trks ! n) > ma")
    case True
    have len: "n \<le> length (pop trks n)" using n by (simp add: pop_def)
    have t1: "take n (pop trks n) = take n trks" using n by (simp add: pop_def)
    have d1: "drop n (pop trks n) = drop (Suc n) trks" using n by (simp add: pop_def)
    show ?thesis
      using True n Suc.IH [OF len] by (simp add: Let_def t1 d1 tk)
  next
    case False
    have len: "n \<le> length trks" using n by simp
    have d1: "drop n trks = trks ! n # drop (Suc n) trks"
      using n by (simp add: Cons_nth_drop_Suc)
    show ?thesis
      using False n Suc.IH [OF len] by (simp add: Let_def d1 tk)
  qed
qed

lemma emit_loop_all:
  "emit_loop (max_age s) (min_hits s) (length trks) trks [] =
     (filter (\<lambda>t. \<not> evicted s t) trks, map emitted_row (rev (filter (emission_gate s) trks)))"
proof -
  have "emission_gate s = (\<lambda>t. time_since_update t < max_age s \<and> min_hits s \<le> hits t)"
    by (simp add: fun_eq_iff emission_gate_def)
  then show ?thesis by (simp add: emit_loop_eq evicted_def)
qed

lemma length_emitted_row: "length (emitted_row trk) = 10"
  by (simp add: emitted_row_def KalmanBoxTracker_get_state_def convert_x_to_bbox_def Let_def)

lemma emitted_row_id: "emitted_row trk ! 9 = Fin (of_int (trk_id trk))"
  by (simp add: emitted_row_def KalmanBoxTracker_get_state_def convert_x_to_bbox_def Let_def)

lemma Sort_update_Inr:
  assumes "Sort_update L count s dets = Inr (count', s', out)"
  obtains live where
    "Sort_update_tracks L count s dets = Inr (count', live)"
    "trackers s' = filter (\<lambda>t. \<not> evicted s t) live"
    "rows out = map emitted_row (rev (filter (emission_gate s) live))"
    "shape out = (if rows out = [] then (0, 6) else (length (rows out), length (hd (rows out))))"
    "max_age s' = max_age s" "min_hits s' = min_hits s" "iou_threshold s' = iou_threshold s"
  using assms
  by (auto simp: Sort_update_def emit_loop_all split: sum.splits prod.splits if_splits)

lemma predict_loop_eq:
  "predict_loop trks t =
     (map (\<lambda>trk. fst (KalmanBoxTracker_predict trk)) trks,
      map predicted_row trks,
      map (\<lambda>i. t + i) (filter (\<lambda>i. has_nan (trks ! i)) [0..<length trks]))"
proof (induction trks arbitrary: t)
  case Nil
  then show ?case by simp
next
  case (Cons trk rest)
  have up: "[0..<length (trk # rest)] = 0 # map Suc [0..<length rest]"
    by (simp add: upt_conv_Cons map_Suc_upt del: upt_Suc)
  show ?case
    by (simp only: up predict_loop.simps Cons.IH)
       (simp add: Let_def predicted_row_def has_nan_def filter_map comp_def split: prod.splits)
qed

lemma foldl_pop_append:
  "sorted_wrt (>) is \<Longrightarrow> \<forall>i\<in>set is. i < length xs \<Longrightarrow>
   foldl pop (xs @ ys) is = foldl pop xs is @ ys"
proof (induction "is" arbitrary: xs)
  case Nil
  then show ?case by simp
next
  case (Cons i "is")
  have i: "i < length xs" using Cons.prems by simp
  have p: "pop (xs @ ys) i = pop xs i @ ys" using i by (simp add: pop_def)
  have l: "\<forall>j\<in>set is. j < length (pop xs i)"
    using Cons.prems i by (auto simp: pop_def)
  show ?case using Cons.IH [of "pop xs i"] Cons.prems l by (simp add: p)
qed

lemma delete_by_index:
  "foldl pop xs (rev (filter (\<lambda>i. Q (xs ! i)) [0..<length xs])) = filter (\<lambda>x. \<not> Q x) xs"
proof (induction xs rule: rev_induct)
  case Nil
  then show ?case by simp
next
  case (snoc x xs)
  let ?is = "filter (\<lambda>i. Q (xs ! i)) [0..<length xs]"
  have eq: "filter (\<lambda>i. Q ((xs @ [x]) ! i)) [0..<length xs] = ?is"
    by (rule filter_cong) (auto simp: nth_append)
  have srt: "sorted_wrt (>) (rev ?is)"
    by (simp add: sorted_wrt_rev sorted_wrt_filter sorted_wrt_upt)
  have bnd: "\<forall>i\<in>set (rev ?is). i < length xs" by simp
  show ?case
  proof (cases "Q x")
    case True
    have "pop (xs @ [x]) (length xs) = xs" by (simp add: pop_def)
    then show ?thesis using True snoc.IH by (simp add: eq)
  next
    case False
    show ?thesis using False snoc.IH foldl_pop_append [OF srt bnd, of "[x]"] by (simp add: eq)
  qed
qed

lemma pop_map: "pop (map f xs) i = map f (pop xs i)"
  by (simp add: pop_def take_map drop_map)

lemma foldl_pop_map: "foldl pop (map f xs) is = map f (foldl pop xs is)"
  by (induction "is" arbitrary: xs) (simp_all add: pop_map)

lemma delete_tracks_eq:
  "delete_tracks (map f trks) (filter (\<lambda>i. Q (trks ! i)) [0..<length trks])
   = map f (filter (\<lambda>trk. \<not> Q trk) trks)"
  by (simp add: delete_tracks_def foldl_pop_map delete_by_index)

lemma KalmanBoxTracker_predict_fields:
  "trk_id (fst (KalmanBoxTracker_predict trk)) = trk_id trk"
  "hits (fst (KalmanBoxTracker_predict trk)) = hits trk"
  "time_since_update (fst (KalmanBoxTracker_predict trk)) = time_since_update trk + 1"
  by (simp_all add: KalmanBoxTracker_predict_def Let_def)

lemma KalmanBoxTracker_update_fields:
  "KalmanBoxTracker_update L trk bbox = Inr trk' \<Longrightarrow>
     trk_id trk' = trk_id trk \<and> time_since_update trk' = 0 \<and> hits trk' = hits trk + 1"
  by (auto simp: KalmanBoxTracker_update_def split: sum.splits)

lemma update_matched_rel:
  "update_matched L dets trks ms = Inr trks' \<Longrightarrow> list_all2 upd_rel trks0 trks \<Longrightarrow>
   list_all2 upd_rel trks0 trks'"
proof (induction ms arbitrary: trks)
  case Nil
  then show ?case by simp
next
  case (Cons m ms)
  from Cons.prems(1) obtain trk where
    r: "snd m < length trks" and
    u: "KalmanBoxTracker_update L (trks ! snd m) (dets ! fst m) = Inr trk" and
    rest: "update_matched L dets (trks[snd m := trk]) ms = Inr trks'"
    by (auto split: if_splits sum.splits)
  have len: "length trks0 = length trks" using Cons.prems(2) by (simp add: list_all2_lengthD)
  have old: "upd_rel (trks0 ! snd m) (trks ! snd m)"
    using Cons.prems(2) r by (simp add: list_all2_nthD2)
  have "upd_rel (trks0 ! snd m) trk"
    using old KalmanBoxTracker_update_fields [OF u] by (auto simp: upd_rel_def)
  then have "list_all2 upd_rel trks0 (trks[snd m := trk])"
    using Cons.prems(2) r len
    by (metis list_all2_update_cong list_update_id)
  then show ?case using Cons.IH [OF rest] by simp
qed

lemma create_trackers_eq:
  "create_trackers count dets trks is = Inr (count', trks') \<Longrightarrow>
   \<exists>new. trks' = trks @ new \<and> length new = length is
      \<and> count' = count + int (length new)
      \<and> map trk_id new = map (\<lambda>k. count + int k) [0..<length new]
      \<and> (\<forall>n\<in>set new. time_since_update n = 0 \<and> hits n = 0)"
proof (induction "is" arbitrary: count trks)
  case Nil
  then show ?case by simp
next
  case (Cons i "is")
  let ?trk = "snd (KalmanBoxTracker_init count (dets ! i @ [Fin 0]))"
  have f: "fst (KalmanBoxTracker_init count (dets ! i @ [Fin 0])) = count + 1"
    "trk_id ?trk = count" "time_since_update ?trk = 0" "hits ?trk = 0"
    by (simp_all add: KalmanBoxTracker_init_def)
  from Cons.prems have rest: "create_trackers (count + 1) dets (trks @ [?trk]) is = Inr (count', trks')"
    using f(1) by (auto split: if_splits prod.splits)
  from Cons.IH [OF rest] obtain new where
    n: "trks' = (trks @ [?trk]) @ new" "length new = length is"
       "count' = count + 1 + int (length new)"
       "map trk_id new = map (\<lambda>k. count + 1 + int k) [0..<length new]"
       "\<forall>n\<in>set new. time_since_update n = 0 \<and> hits n = 0"
    by blast
  have up: "[0..<length (?trk # new)] = 0 # map Suc [0..<length new]"
    by (simp add: upt_conv_Cons map_Suc_upt del: upt_Suc)
  have "map trk_id (?trk # new) = map (\<lambda>k. count + int k) [0..<length (?trk # new)]"
    unfolding up using n(4) f(2) by (simp add: comp_def add.assoc)
  then show ?case using n f by (intro exI [of _ "?trk # new"]) auto
qed

text \<open>
  The tracks at the end of line 199: the tracks of the state, predicted, without those
  whose predicted box holds a NaN, each corrected or not; then the new tracks, which take
  the identities from the counter on.
\<close>

lemma Sort_update_tracks_Inr:
  assumes "Sort_update_tracks L count s dets = Inr (count', live)"
  obtains upd new where
    "live = upd @ new"
    "list_all2 upd_rel
       (map (\<lambda>trk. fst (KalmanBoxTracker_predict trk)) (filter (\<lambda>trk. \<not> has_nan trk) (trackers s)))
       upd"
    "count' = count + int (length new)"
    "map trk_id new = map (\<lambda>k. count + int k) [0..<length new]"
    "\<forall>n\<in>set new. time_since_update n = 0 \<and> hits n = 0"
proof -
  let ?pred = "map (\<lambda>trk. fst (KalmanBoxTracker_predict trk)) (filter (\<lambda>trk. \<not> has_nan trk) (trackers s))"
  from assms obtain matched unmatched_dets upd where
    u: "update_matched L dets ?pred matched = Inr upd" and
    c: "create_trackers count dets upd unmatched_dets = Inr (count', live)"
    by (auto simp: Sort_update_tracks_def predict_loop_eq delete_tracks_eq
             split: sum.splits prod.splits)
  have "list_all2 upd_rel ?pred ?pred"
    by (simp add: list_all2_same upd_rel_def)
  then have r: "list_all2 upd_rel ?pred upd" by (rule update_matched_rel [OF u])
  from create_trackers_eq [OF c] r that show ?thesis by blast
qed


lemma emitted_row_inj: "emitted_row t = emitted_row t' \<Longrightarrow> trk_id t = trk_id t'"
proof -
  assume "emitted_row t = emitted_row t'"
  then have "emitted_row t ! 9 = emitted_row t' ! 9" by simp
  then show ?thesis by (simp add: emitted_row_id)
qed

section \<open>Emission and eviction\<close>

text \<open>
  C1. Whenever a step returns, the rows it emits are the rows of exactly the tracks that
  are live at the end of the step's corrections and creations (the list
  \<open>Sort_update_tracks\<close> returns) and pass the gate \<open>time_since_update < max_age\<close> and
  \<open>hits \<ge> min_hits\<close> (in reverse order of the list); when the identities of the live
  tracks are distinct, the row of a live track is in the output if and only if the track
  passes the gate; and a live track that satisfies the age gate and fails the hits gate
  stays in the tracker's list.
\<close>

theorem emission_iff_gate:
  assumes "Sort_update L count s dets = Inr (count', s', out)"
  shows "\<exists>live. Sort_update_tracks L count s dets = Inr (count', live)
     \<and> rows out = map emitted_row (rev (filter (emission_gate s) live))
     \<and> (distinct (map trk_id live) \<longrightarrow>
          (\<forall>t\<in>set live. (emitted_row t \<in> set (rows out)) = emission_gate s t))
     \<and> (\<forall>t\<in>set live. time_since_update t < max_age s \<and> hits t < min_hits s
            \<longrightarrow> t \<in> set (trackers s'))"
proof -
  from assms obtain live where
    l: "Sort_update_tracks L count s dets = Inr (count', live)" and
    t: "trackers s' = filter (\<lambda>t. \<not> evicted s t) live" and
    r: "rows out = map emitted_row (rev (filter (emission_gate s) live))"
    by (rule Sort_update_Inr)
  have iff: "(emitted_row t \<in> set (rows out)) = emission_gate s t"
    if d: "distinct (map trk_id live)" and m: "t \<in> set live" for t
  proof
    assume "emitted_row t \<in> set (rows out)"
    then obtain t' where t': "t' \<in> set live" "emission_gate s t'" "emitted_row t' = emitted_row t"
      using r by auto
    have "trk_id t' = trk_id t" using t'(3) by (rule emitted_row_inj)
    then have "t' = t" using d m t'(1) by (meson distinct_map inj_onD)
    then show "emission_gate s t" using t'(2) by simp
  next
    assume "emission_gate s t"
    then show "emitted_row t \<in> set (rows out)" using r m by simp
  qed
  have keep: "t \<in> set (trackers s')"
    if "t \<in> set live" "time_since_update t < max_age s \<and> hits t < min_hits s" for t
    using that t by (simp add: evicted_def)
  from l r iff keep show ?thesis by blast
qed

text \<open>
  C10. Whenever a step returns: if some live track passes the gate, the output has one
  row of 10 values for each such track, laid out as box corners, confidence, class,
  the three velocities and the identity; if no live track passes the gate, the output
  is the empty array of shape \<open>(0, 6)\<close>.
\<close>

theorem output_width:
  assumes "Sort_update L count s dets = Inr (count', s', out)"
  shows "\<exists>live. Sort_update_tracks L count s dets = Inr (count', live)
     \<and> ((\<exists>t\<in>set live. emission_gate s t) \<longrightarrow>
           rows out \<noteq> [] \<and> shape out = (length (filter (emission_gate s) live), 10)
           \<and> (\<forall>t\<in>set live. emission_gate s t \<longrightarrow>
                 convert_x_to_bbox (kf_x (kf t))
                   @ [detclass t, kf_x (kf t) ! 5, kf_x (kf t) ! 6, kf_x (kf t) ! 7,
                      Fin (of_int (trk_id t))] \<in> set (rows out))
           \<and> (\<forall>r\<in>set (rows out). length r = 10))
     \<and> ((\<forall>t\<in>set live. \<not> emission_gate s t) \<longrightarrow> rows out = [] \<and> shape out = (0, 6))"
proof -
  from assms obtain live where
    l: "Sort_update_tracks L count s dets = Inr (count', live)" and
    r: "rows out = map emitted_row (rev (filter (emission_gate s) live))" and
    sh: "shape out = (if rows out = [] then (0, 6) else (length (rows out), length (hd (rows out))))"
    by (rule Sort_update_Inr)
  have len: "\<forall>r\<in>set (rows out). length r = 10"
    using r by (auto simp: length_emitted_row)
  have some: "rows out \<noteq> [] \<and> shape out = (length (filter (emission_gate s) live), 10)
      \<and> (\<forall>t\<in>set live. emission_gate s t \<longrightarrow>
                 convert_x_to_bbox (kf_x (kf t))
                   @ [detclass t, kf_x (kf t) ! 5, kf_x (kf t) ! 6, kf_x (kf t) ! 7,
                      Fin (of_int (trk_id t))] \<in> set (rows out))"
    if "\<exists>t\<in>set live. emission_gate s t"
  proof -
    have ne: "rows out \<noteq> []" using that r by (auto simp: filter_empty_conv)
    then have "hd (rows out) \<in> set (rows out)" by simp
    then have "length (hd (rows out)) = 10" using len by blast
    then have "shape out = (length (filter (emission_gate s) live), 10)"
      using ne sh r by simp
    moreover have "\<forall>t\<in>set live. emission_gate s t \<longrightarrow>
                 convert_x_to_bbox (kf_x (kf t))
                   @ [detclass t, kf_x (kf t) ! 5, kf_x (kf t) ! 6, kf_x (kf t) ! 7,
                      Fin (of_int (trk_id t))] \<in> set (rows out)"
      using r by (auto simp: emitted_row_def KalmanBoxTracker_get_state_def image_iff)
    ultimately show ?thesis using ne by blast
  qed
  have none: "rows out = [] \<and> shape out = (0, 6)" if "\<forall>t\<in>set live. \<not> emission_gate s t"
  proof -
    have "rows out = []" using that r by (simp add: filter_empty_conv)
    then show ?thesis using sh by simp
  qed
  from l some len none show ?thesis by blast
qed

section \<open>Identities\<close>

lemma upd_rel_ids: "list_all2 upd_rel xs ys \<Longrightarrow> map trk_id ys = map trk_id xs"
  by (induction rule: list_all2_induct) (simp_all add: upd_rel_def)

lemma sorted_ids_filter:
  "sorted_wrt (<) (map trk_id xs) \<Longrightarrow> sorted_wrt (<) (map trk_id (filter P xs))"
  by (simp add: sorted_wrt_map sorted_wrt_filter)

lemma identities_step:
  assumes "Sort_update L count s dets = Inr (count', s', out)"
      and "sorted_wrt (<) (map trk_id (trackers s))"
      and "\<forall>t\<in>set (trackers s). trk_id t < count"
  shows "\<exists>old new. Sort_update_tracks L count s dets = Inr (count', old @ new)
     \<and> map trk_id old = map trk_id (filter (\<lambda>t. \<not> has_nan t) (trackers s))
     \<and> map trk_id new = map (\<lambda>k. count + int k) [0..<length new]
     \<and> count' = count + int (length new)
     \<and> trackers s' = filter (\<lambda>t. \<not> evicted s t) (old @ new)
     \<and> sorted_wrt (<) (map trk_id (trackers s'))
     \<and> (\<forall>t\<in>set (trackers s'). trk_id t < count')"
proof -
  from assms(1) obtain live where
    l: "Sort_update_tracks L count s dets = Inr (count', live)" and
    t: "trackers s' = filter (\<lambda>t. \<not> evicted s t) live"
    by (rule Sort_update_Inr)
  from l obtain old new where
    live: "live = old @ new" and
    rel: "list_all2 upd_rel
       (map (\<lambda>trk. fst (KalmanBoxTracker_predict trk)) (filter (\<lambda>trk. \<not> has_nan trk) (trackers s)))
       old" and
    c: "count' = count + int (length new)" and
    ids: "map trk_id new = map (\<lambda>k. count + int k) [0..<length new]"
    by (rule Sort_update_tracks_Inr)
  have old: "map trk_id old = map trk_id (filter (\<lambda>t. \<not> has_nan t) (trackers s))"
    using upd_rel_ids [OF rel] by (simp add: comp_def KalmanBoxTracker_predict_fields)
  have so: "sorted_wrt (<) (map trk_id old)"
    unfolding old using assms(2) by (rule sorted_ids_filter)
  have sn: "sorted_wrt (<) (map trk_id new)"
    unfolding ids by (simp add: sorted_wrt_map sorted_wrt_upt)
  have lo: "\<forall>i\<in>set (map trk_id old). i < count"
    unfolding old using assms(3) by auto
  have hi: "\<forall>i\<in>set (map trk_id new). count \<le> i \<and> i < count'"
    unfolding ids c by auto
  have "sorted_wrt (<) (map trk_id (old @ new))"
    using so sn lo hi by (fastforce simp: sorted_wrt_append)
  then have s': "sorted_wrt (<) (map trk_id (trackers s'))"
    unfolding t live by (rule sorted_ids_filter)
  have "\<forall>i\<in>set (map trk_id (old @ new)). i < count'"
    using lo hi c by auto
  then have b': "\<forall>t\<in>set (trackers s'). trk_id t < count'"
    unfolding t live by auto
  from l live old ids c t s' b' show ?thesis by blast
qed

text \<open>
  Along any number of consecutive steps the counter does not go down, the identities stay
  strictly increasing along the list and below the counter, and a track of the last state
  has the identity of a track of the first state or an identity given out since.
\<close>

lemma Sort_run_identities:
  assumes "Sort_run L count s detss = Inr (count', s', outs)"
      and "sorted_wrt (<) (map trk_id (trackers s))"
      and "\<forall>t\<in>set (trackers s). trk_id t < count"
  shows "count \<le> count' \<and> sorted_wrt (<) (map trk_id (trackers s'))
     \<and> (\<forall>t\<in>set (trackers s'). trk_id t < count')
     \<and> (\<forall>t\<in>set (trackers s'). trk_id t \<in> trk_id ` set (trackers s) \<or> count \<le> trk_id t)"
  using assms
proof (induction detss arbitrary: count s outs)
  case Nil
  then show ?case by auto
next
  case (Cons dets rest)
  from Cons.prems(1) obtain c1 s1 out1 outs1 where
    step: "Sort_update L count s dets = Inr (c1, s1, out1)" and
    run: "Sort_run L c1 s1 rest = Inr (count', s', outs1)"
    by (auto split: sum.splits)
  from identities_step [OF step Cons.prems(2,3)] obtain old new where
    o: "map trk_id old = map trk_id (filter (\<lambda>t. \<not> has_nan t) (trackers s))" and
    n: "map trk_id new = map (\<lambda>k. count + int k) [0..<length new]" and
    c: "c1 = count + int (length new)" and
    t: "trackers s1 = filter (\<lambda>t. \<not> evicted s t) (old @ new)" and
    s1: "sorted_wrt (<) (map trk_id (trackers s1))" and
    b1: "\<forall>t\<in>set (trackers s1). trk_id t < c1"
    by blast
  have from_s: "trk_id t \<in> trk_id ` set (trackers s) \<or> count \<le> trk_id t"
    if "t \<in> set (trackers s1)" for t
  proof -
    from that t have "t \<in> set old \<or> t \<in> set new" by auto
    then show ?thesis
    proof
      assume "t \<in> set old"
      then have "trk_id t \<in> set (map trk_id old)" by simp
      then show ?thesis unfolding o by auto
    next
      assume "t \<in> set new"
      then have "trk_id t \<in> set (map trk_id new)" by simp
      then show ?thesis unfolding n by auto
    qed
  qed
  from Cons.IH [OF run s1 b1] have
    ih: "c1 \<le> count'" "sorted_wrt (<) (map trk_id (trackers s'))"
        "\<forall>t\<in>set (trackers s'). trk_id t < count'"
        "\<forall>t\<in>set (trackers s'). trk_id t \<in> trk_id ` set (trackers s1) \<or> c1 \<le> trk_id t"
    by auto
  have "trk_id t \<in> trk_id ` set (trackers s) \<or> count \<le> trk_id t"
    if "t \<in> set (trackers s')" for t
  proof -
    from ih(4) that consider t1 where "t1 \<in> set (trackers s1)" "trk_id t = trk_id t1"
      | "c1 \<le> trk_id t" by auto
    then show ?thesis
    proof cases
      case 1
      then show ?thesis using from_s [OF 1(1)] by simp
    next
      case 2
      then show ?thesis using c by simp
    qed
  qed
  then show ?case using ih c by auto
qed

text \<open>
  C6. Let the identities of the tracks of a state be strictly increasing along the list
  and all below the counter. Whenever a step returns, the tracks it creates get the
  identities \<open>count\<close>, \<open>count + 1\<close>, ... in the order of their creation, one each, and
  the counter ends just above the last of them, so it never goes down; the tracks that
  were there keep their identities; and the identities of the new state are again
  strictly increasing along the list and below the new counter. Every identity given
  out before the step is below \<open>count\<close>, whether its track is still there or not, so no
  identity is given twice.
\<close>

theorem identities_increasing:
  assumes "Sort_update L count s dets = Inr (count', s', out)"
      and "sorted_wrt (<) (map trk_id (trackers s))"
      and "\<forall>t\<in>set (trackers s). trk_id t < count"
  shows "\<exists>old new. Sort_update_tracks L count s dets = Inr (count', old @ new)
     \<and> map trk_id old = map trk_id (filter (\<lambda>t. \<not> has_nan t) (trackers s))
     \<and> map trk_id new = map (\<lambda>k. count + int k) [0..<length new]
     \<and> count' = count + int (length new)
     \<and> trackers s' = filter (\<lambda>t. \<not> evicted s t) (old @ new)
     \<and> sorted_wrt (<) (map trk_id (trackers s'))
     \<and> (\<forall>t\<in>set (trackers s'). trk_id t < count')"
  using assms by (rule identities_step)

section \<open>Eviction\<close>

text \<open>
  What one step does to the counters of a track that is in the list afterwards: the
  track was in the list before and was predicted and not corrected (one more step since
  its last update, the same hits), or it was there and was corrected (no step since its
  last update, more hits), or it was created in the step.
\<close>

lemma step_tracks:
  assumes "Sort_update L count s dets = Inr (count', s', out)"
      and "t' \<in> set (trackers s')"
  shows "time_since_update t' \<le> max_age s
     \<and> ((\<exists>t\<in>set (trackers s). trk_id t' = trk_id t
            \<and> ((time_since_update t' = time_since_update t + 1 \<and> hits t' = hits t)
                \<or> (time_since_update t' = 0 \<and> hits t < hits t')))
         \<or> (count \<le> trk_id t' \<and> trk_id t' < count'))"
proof -
  from assms(1) obtain live where
    l: "Sort_update_tracks L count s dets = Inr (count', live)" and
    t: "trackers s' = filter (\<lambda>t. \<not> evicted s t) live"
    by (rule Sort_update_Inr)
  from l obtain old new where
    live: "live = old @ new" and
    rel: "list_all2 upd_rel
       (map (\<lambda>trk. fst (KalmanBoxTracker_predict trk)) (filter (\<lambda>trk. \<not> has_nan trk) (trackers s)))
       old" and
    c: "count' = count + int (length new)" and
    ids: "map trk_id new = map (\<lambda>k. count + int k) [0..<length new]"
    by (rule Sort_update_tracks_Inr)
  have age: "time_since_update t' \<le> max_age s"
    using assms(2) t by (simp add: evicted_def)
  have mem: "t' \<in> set old \<or> t' \<in> set new" using assms(2) t live by auto
  then have "(\<exists>t\<in>set (trackers s). trk_id t' = trk_id t
            \<and> ((time_since_update t' = time_since_update t + 1 \<and> hits t' = hits t)
                \<or> (time_since_update t' = 0 \<and> hits t < hits t')))
         \<or> (count \<le> trk_id t' \<and> trk_id t' < count')"
  proof
    assume "t' \<in> set old"
    then obtain i where i: "i < length old" "old ! i = t'" by (auto simp: in_set_conv_nth)
    let ?kept = "filter (\<lambda>trk. \<not> has_nan trk) (trackers s)"
    have len: "length old = length ?kept" using list_all2_lengthD [OF rel] by simp
    have "upd_rel (fst (KalmanBoxTracker_predict (?kept ! i))) t'"
      using list_all2_nthD2 [OF rel i(1)] i len by simp
    moreover have "?kept ! i \<in> set (trackers s)"
      using i(1) len by (metis filter_is_subset nth_mem subsetD)
    ultimately show ?thesis
      by (auto simp: upd_rel_def KalmanBoxTracker_predict_fields)
  next
    assume "t' \<in> set new"
    then have "trk_id t' \<in> set (map trk_id new)" by simp
    then have "count \<le> trk_id t' \<and> trk_id t' < count'"
      unfolding ids c by auto
    then show ?thesis by simp
  qed
  with age show ?thesis by simp
qed

lemma sorted_ids_inj:
  "sorted_wrt (<) (map trk_id xs) \<Longrightarrow> a \<in> set xs \<Longrightarrow> b \<in> set xs \<Longrightarrow> trk_id a = trk_id b
     \<Longrightarrow> a = b"
  by (meson distinct_map inj_onD strict_sorted_iff)

text \<open>
  C2, as the code has it. Whenever a step returns, the tracks of the new state are the
  tracks that are live after the corrections and creations of the step and whose
  \<open>time_since_update\<close> at that moment does not exceed \<open>max_age\<close>; the tracks live at that
  moment are the tracks of the old state whose predicted box holds no NaN, predicted and
  then corrected or not (a correction puts \<open>time_since_update\<close> back to 0), followed by
  the new tracks. So a track leaves the list in a step if and only if its predicted box
  holds a NaN or its \<open>time_since_update\<close> at the end of the step exceeds \<open>max_age\<close>. In
  particular, with \<open>max_age = 1\<close> and distinct identities below the counter, a track
  with \<open>time_since_update \<ge> 0\<close> that is still in the list after two more steps has been
  corrected in one of them: its \<open>hits\<close> has grown.
\<close>

theorem eviction_rule:
  assumes "Sort_update L count s dets = Inr (count1, s1, out1)"
  shows "(\<exists>upd new. Sort_update_tracks L count s dets = Inr (count1, upd @ new)
           \<and> list_all2 upd_rel
                (map (\<lambda>trk. fst (KalmanBoxTracker_predict trk))
                     (filter (\<lambda>trk. \<not> has_nan trk) (trackers s))) upd
           \<and> (\<forall>n\<in>set new. time_since_update n = 0)
           \<and> trackers s1 = filter (\<lambda>t. \<not> max_age s < time_since_update t) (upd @ new))
       \<and> (\<forall>dets' count2 s2 out2 t0 t2.
             max_age s = 1
             \<and> sorted_wrt (<) (map trk_id (trackers s))
             \<and> (\<forall>t\<in>set (trackers s). trk_id t < count)
             \<and> Sort_update L count1 s1 dets' = Inr (count2, s2, out2)
             \<and> t0 \<in> set (trackers s) \<and> 0 \<le> time_since_update t0
             \<and> t2 \<in> set (trackers s2) \<and> trk_id t2 = trk_id t0
             \<longrightarrow> hits t0 < hits t2)"
proof -
  from assms obtain live where
    l: "Sort_update_tracks L count s dets = Inr (count1, live)" and
    t: "trackers s1 = filter (\<lambda>t. \<not> evicted s t) live" and
    ma1: "max_age s1 = max_age s"
    by (rule Sort_update_Inr)
  from l obtain upd new where
    live: "live = upd @ new" and
    rel: "list_all2 upd_rel
       (map (\<lambda>trk. fst (KalmanBoxTracker_predict trk)) (filter (\<lambda>trk. \<not> has_nan trk) (trackers s)))
       upd" and
    c1: "count1 = count + int (length new)" and
    fresh: "\<forall>n\<in>set new. time_since_update n = 0 \<and> hits n = 0"
    by (rule Sort_update_tracks_Inr)
  have first: "\<exists>upd new. Sort_update_tracks L count s dets = Inr (count1, upd @ new)
           \<and> list_all2 upd_rel
                (map (\<lambda>trk. fst (KalmanBoxTracker_predict trk))
                     (filter (\<lambda>trk. \<not> has_nan trk) (trackers s))) upd
           \<and> (\<forall>n\<in>set new. time_since_update n = 0)
           \<and> trackers s1 = filter (\<lambda>t. \<not> max_age s < time_since_update t) (upd @ new)"
    using l live rel fresh t by (auto simp: evicted_def)
  have second: "hits t0 < hits t2"
    if ma: "max_age s = 1"
      and srt: "sorted_wrt (<) (map trk_id (trackers s))"
      and bnd: "\<forall>t\<in>set (trackers s). trk_id t < count"
      and step2: "Sort_update L count1 s1 dets' = Inr (count2, s2, out2)"
      and t0: "t0 \<in> set (trackers s)" "0 \<le> time_since_update t0"
      and t2: "t2 \<in> set (trackers s2)" "trk_id t2 = trk_id t0"
    for dets' count2 s2 out2 t0 t2
  proof -
    have low: "trk_id t0 < count" using bnd t0(1) by simp
    have c01: "count \<le> count1" using c1 by simp
    from step_tracks [OF step2 t2(1)] t2(2) low c01 obtain t1 where
      a2: "time_since_update t2 \<le> 1" and
      t1: "t1 \<in> set (trackers s1)" "trk_id t1 = trk_id t0" and
      r2: "(time_since_update t2 = time_since_update t1 + 1 \<and> hits t2 = hits t1)
           \<or> (time_since_update t2 = 0 \<and> hits t1 < hits t2)"
      using ma ma1 by auto
    from step_tracks [OF assms t1(1)] t1(2) low obtain t where
      tt: "t \<in> set (trackers s)" "trk_id t = trk_id t0" and
      r1: "(time_since_update t1 = time_since_update t + 1 \<and> hits t1 = hits t)
           \<or> (time_since_update t1 = 0 \<and> hits t < hits t1)"
      by auto
    have "t = t0" using sorted_ids_inj [OF srt tt(1) t0(1) tt(2)] .
    then show ?thesis using r1 r2 a2 t0(2) by auto
  qed
  from first second show ?thesis by blast
qed


section \<open>Running the tracker on a stationary object\<close>

lemmas linalg_defs =
  mat_vec_def mat_mul_def mat_add_def mat_sub_def vec_add_def vec_sub_def eye_def diag_def
  kf_F_def kf_H_def kf_R_def kf_P0_def kf_Q_def

lemmas ref_inv_defs = ref_lib_def ref_inv_def eliminate_def inf_of_sign_def

lemma sqrt_100: "sqrt 100 = 10"
  by (rule real_sqrt_unique) simp_all

lemma convert_x0: "convert_x_to_bbox x0 = box0"
  by (simp add: convert_x_to_bbox_def x0_def box0_def Let_def sqrt_100)

lemma convert_det0: "convert_bbox_to_z det0 = z0" "convert_bbox_to_z (det0 @ [Fin 0]) = z0"
  by (simp_all add: convert_bbox_to_z_def det0_def z0_def Let_def)

lemma predict_x0: "kf_x k = x0 \<Longrightarrow> kf_x (KalmanFilter_predict k) = x0"
  by (simp add: KalmanFilter_predict_def mat_vec_def kf_F_def x0_def)

lemma update_after0:
  "KalmanFilter_update ref_lib (KalmanFilter_predict \<lparr>kf_x = x0, kf_P = kf_P0\<rparr>) z0
     = Inr \<lparr>kf_x = x0, kf_P = P_after1\<rparr>"
  by (simp add: KalmanFilter_update_def KalmanFilter_predict_def linalg_defs ref_inv_defs
        x0_def z0_def P_after1_def Let_def upt_rec)

lemma update_after1:
  "KalmanFilter_update ref_lib (KalmanFilter_predict \<lparr>kf_x = x0, kf_P = P_after1\<rparr>) z0
     = Inr \<lparr>kf_x = x0, kf_P = P_after2\<rparr>"
  by (simp add: KalmanFilter_update_def KalmanFilter_predict_def linalg_defs ref_inv_defs
        x0_def z0_def P_after1_def P_after2_def Let_def upt_rec)

lemma update_after2:
  "KalmanFilter_update ref_lib (KalmanFilter_predict \<lparr>kf_x = x0, kf_P = P_after2\<rparr>) z0
     = Inr \<lparr>kf_x = x0, kf_P = P_after3\<rparr>"
  by (simp add: KalmanFilter_update_def KalmanFilter_predict_def linalg_defs ref_inv_defs
        x0_def z0_def P_after2_def P_after3_def Let_def upt_rec)

lemma update_after_miss:
  "KalmanFilter_update ref_lib
     (KalmanFilter_predict (KalmanFilter_predict \<lparr>kf_x = x0, kf_P = kf_P0\<rparr>)) z0
     = Inr \<lparr>kf_x = x0, kf_P = P_after_miss\<rparr>"
  by (simp add: KalmanFilter_update_def KalmanFilter_predict_def linalg_defs ref_inv_defs
        x0_def z0_def P_after_miss_def Let_def upt_rec)


lemma KalmanBoxTracker_predict_x0:
  assumes "kf_x (kf trk) = x0"
  shows "KalmanBoxTracker_predict trk =
     (trk\<lparr>kf := KalmanFilter_predict (kf trk),
          age := age trk + 1,
          hit_streak := (if time_since_update trk > 0 then 0 else hit_streak trk),
          time_since_update := time_since_update trk + 1,
          history := history trk @ [box0]\<rparr>,
      box0)"
proof -
  have nz: "\<not> fle (fadd (x0 ! 7) (x0 ! 2)) (Fin 0)" by (simp add: x0_def)
  have same: "(kf trk)\<lparr>kf_x := x0\<rparr> = kf trk" using assms by simp
  have box: "convert_x_to_bbox (kf_x (KalmanFilter_predict (kf trk))) = box0"
    using predict_x0 [OF assms] by (simp add: convert_x0)
  show ?thesis
    by (simp add: KalmanBoxTracker_predict_def assms nz same box Let_def)
qed

lemma has_nan_x0: "kf_x (kf trk) = x0 \<Longrightarrow> \<not> has_nan trk"
  by (simp add: has_nan_def KalmanBoxTracker_predict_x0 box0_def isnan_def)

lemma predicted_row_x0: "kf_x (kf trk) = x0 \<Longrightarrow> predicted_row trk = box0 @ [Fin 0]"
  by (simp add: predicted_row_def KalmanBoxTracker_predict_x0 box0_def Let_def)

lemma iou_det0_box0: "iou det0 (box0 @ [Fin 0]) = Fin 1"
  by (simp add: iou_def det0_def box0_def Let_def)

lemma associate_det0_box0:
  "associate_detections_to_trackers L [det0] [box0 @ [Fin 0]] (Fin (3/10))
     = Inr ([(0, 0)], [], [])"
proof -
  have m: "matched_indices L [[Fin 1]] (Suc 0) (Suc 0) (Fin (3/10)) = Inr [(0, 0)]"
    by (simp add: matched_indices_def threshold_matrix_def fgt_def max_count_def
          where_nonzero_def Let_def)
  have p: "post_filter [[Fin 1]] (Suc 0) (Suc 0) (Fin (3/10)) [(0, 0)] = Inr ([(0, 0)], [], [])"
    by (simp add: post_filter_def Let_def)
  show ?thesis
    by (simp add: associate_detections_to_trackers_def iou_batch_def iou_det0_box0 m p Let_def)
qed

lemma associate_no_detection:
  "associate_detections_to_trackers L [] (t # ts) thr = Inr ([], [], [0..<Suc (length ts)])"
  by (simp add: associate_detections_to_trackers_def iou_batch_def matched_indices_def
        post_filter_def Let_def del: upt_Suc)

lemma centroid_det0: "centroid det0 = (Fin 5, Fin 5)" "centroid (det0 @ [Fin 0]) = (Fin 5, Fin 5)"
  by (simp_all add: centroid_def det0_def)

lemma compress_box0: "compress_rows_masked_invalid [box0 @ [Fin 0]] = [box0 @ [Fin 0]]"
  by (simp add: compress_rows_masked_invalid_def box0_def)

lemma predict_loop_x0:
  assumes "kf_x (kf trk) = x0"
  shows "predict_loop [trk] 0 = ([fst (KalmanBoxTracker_predict trk)], [box0 @ [Fin 0]], [])"
  using has_nan_x0 [OF assms] predicted_row_x0 [OF assms] by (simp add: predict_loop_eq)

text \<open>
  One step of the default tracker that holds one track at \<open>x0\<close>, on the detection
  \<open>det0\<close>: the track is predicted, matched and corrected.
\<close>

lemma match_tracks:
  assumes "kf_x (kf trk) = x0"
      and "KalmanFilter_update ref_lib (KalmanFilter_predict (kf trk)) z0 = Inr k"
  shows "Sort_update_tracks ref_lib count (default_tracker [trk] n) [det0] =
     Inr (count,
          [trk\<lparr>kf := k,
                age := age trk + 1,
                hit_streak := (if time_since_update trk > 0 then 0 else hit_streak trk) + 1,
                time_since_update := 0,
                history := [],
                hits := hits trk + 1,
                detclass := Fin 0,
                centroidarr := centroidarr trk @ [(Fin 5, Fin 5)],
                bbox_history := bbox_history trk @ [det0]\<rparr>])"
proof -
  have d5: "det0 ! 5 = Fin 0" by (simp add: det0_def)
  have u: "KalmanBoxTracker_update ref_lib (fst (KalmanBoxTracker_predict trk)) det0 =
      Inr (trk\<lparr>kf := k,
                age := age trk + 1,
                hit_streak := (if time_since_update trk > 0 then 0 else hit_streak trk) + 1,
                time_since_update := 0,
                history := [],
                hits := hits trk + 1,
                detclass := Fin 0,
                centroidarr := centroidarr trk @ [(Fin 5, Fin 5)],
                bbox_history := bbox_history trk @ [det0]\<rparr>)"
    by (simp add: KalmanBoxTracker_update_def KalmanBoxTracker_predict_x0 [OF assms(1)]
          convert_det0 centroid_det0 d5 assms(2))
  show ?thesis
    by (simp add: Sort_update_tracks_def default_tracker_def predict_loop_x0 [OF assms(1)]
          compress_box0 delete_tracks_def associate_det0_box0 u del: predict_loop.simps)
qed

text \<open>The same step without a detection: the track is predicted and nothing else.\<close>

lemma miss_tracks:
  assumes "kf_x (kf trk) = x0"
  shows "Sort_update_tracks L count (default_tracker [trk] n) [] =
     Inr (count, [fst (KalmanBoxTracker_predict trk)])"
  by (simp add: Sort_update_tracks_def default_tracker_def predict_loop_x0 [OF assms]
        compress_box0 delete_tracks_def associate_no_detection del: predict_loop.simps)

text \<open>The first step of an empty tracker on \<open>det0\<close>: the track is created.\<close>

lemma create_tracks:
  "Sort_update_tracks L 0 (default_tracker [] 0) [det0] = Inr (1, [track_after 0 kf_P0])"
proof -
  have d5: "(det0 @ [Fin 0]) ! 5 = Fin 0" by (simp add: det0_def)
  show ?thesis
    by (simp add: Sort_update_tracks_def default_tracker_def compress_rows_masked_invalid_def
          delete_tracks_def associate_detections_to_trackers_def KalmanBoxTracker_init_def
          convert_det0 centroid_det0 track_after_def x0_def z0_def d5)
qed

lemma emitted_row_x0:
  "kf_x (kf trk) = x0 \<Longrightarrow>
   emitted_row trk = box0 @ [detclass trk, Fin 0, Fin 0, Fin 0, Fin (of_int (trk_id trk))]"
  by (simp add: emitted_row_def KalmanBoxTracker_get_state_def convert_x0) (simp add: x0_def)


lemma track_after_x0: "kf_x (kf (track_after n P)) = x0"
  by (simp add: track_after_def)

lemma emit_one:
  "emit_loop ma mh (Suc 0) [trk] [] =
     (if time_since_update trk > ma then [] else [trk],
      if time_since_update trk < ma \<and> hits trk \<ge> mh then [emitted_row trk] else [])"
  by (simp add: Let_def pop_def)

lemma step_create:
  "Sort_update L 0 (default_tracker [] 0) [det0] =
     Inr (1, default_tracker [track_after 0 kf_P0] 1, no_rows)"
  by (simp add: Sort_update_def create_tracks emit_one del: emit_loop.simps)
     (simp add: default_tracker_def track_after_def no_rows_def)

lemma step_match:
  assumes "KalmanFilter_update ref_lib (KalmanFilter_predict \<lparr>kf_x = x0, kf_P = P\<rparr>) z0
             = Inr \<lparr>kf_x = x0, kf_P = P'\<rparr>"
  shows "Sort_update ref_lib count (default_tracker [track_after n P] f) [det0] =
     Inr (count, default_tracker [track_after (Suc n) P'] (f + 1),
          if 2 \<le> n then one_row else no_rows)"
proof -
  have k: "KalmanFilter_update ref_lib (KalmanFilter_predict (kf (track_after n P))) z0
             = Inr \<lparr>kf_x = x0, kf_P = P'\<rparr>"
    using assms by (simp add: track_after_def)
  have t: "track_after n P
            \<lparr>kf := \<lparr>kf_x = x0, kf_P = P'\<rparr>,
              age := age (track_after n P) + 1,
              hit_streak := (if time_since_update (track_after n P) > 0 then 0
                             else hit_streak (track_after n P)) + 1,
              time_since_update := 0,
              history := [],
              hits := hits (track_after n P) + 1,
              detclass := Fin 0,
              centroidarr := centroidarr (track_after n P) @ [(Fin 5, Fin 5)],
              bbox_history := bbox_history (track_after n P) @ [det0]\<rparr>
           = track_after (Suc n) P'"
    by (simp add: track_after_def replicate_append_same)
  have r: "emitted_row (track_after (Suc n) P') =
      [Fin 0, Fin 0, Fin 10, Fin 10, Fin (9/10), Fin 0, Fin 0, Fin 0, Fin 0, Fin 0]"
    by (simp add: emitted_row_x0 [OF track_after_x0]) (simp add: track_after_def box0_def)
  have g: "time_since_update (track_after (Suc n) P') = 0"
    "hits (track_after (Suc n) P') = int n + 1"
    by (simp_all add: track_after_def)
  show ?thesis
    unfolding Sort_update_def match_tracks [OF track_after_x0 k] t
    by (simp add: emit_one g r del: emit_loop.simps)
       (simp add: default_tracker_def one_row_def no_rows_def)
qed

lemma step_miss:
  "Sort_update L count (default_tracker [track_after 0 kf_P0] f) [] =
     Inr (count, default_tracker [track_missed] (f + 1), no_rows)"
proof -
  have p: "fst (KalmanBoxTracker_predict (track_after 0 kf_P0)) = track_missed"
    by (simp add: KalmanBoxTracker_predict_x0 [OF track_after_x0])
       (simp add: track_after_def track_missed_def)
  have g: "time_since_update track_missed = 1" by (simp add: track_missed_def)
  show ?thesis
    unfolding Sort_update_def miss_tracks [OF track_after_x0] p
    by (simp add: emit_one g del: emit_loop.simps)
       (simp add: default_tracker_def no_rows_def)
qed

lemma track_missed_x0: "kf_x (kf track_missed) = x0"
  by (simp add: track_missed_def predict_x0)

lemma step_recover:
  "Sort_update ref_lib count (default_tracker [track_missed] f) [det0] =
     Inr (count, default_tracker [track_recovered] (f + 1), no_rows)"
proof -
  have k: "KalmanFilter_update ref_lib (KalmanFilter_predict (kf track_missed)) z0
             = Inr \<lparr>kf_x = x0, kf_P = P_after_miss\<rparr>"
    using update_after_miss by (simp add: track_missed_def)
  have t: "track_missed
            \<lparr>kf := \<lparr>kf_x = x0, kf_P = P_after_miss\<rparr>,
              age := age track_missed + 1,
              hit_streak := (if time_since_update track_missed > 0 then 0
                             else hit_streak track_missed) + 1,
              time_since_update := 0,
              history := [],
              hits := hits track_missed + 1,
              detclass := Fin 0,
              centroidarr := centroidarr track_missed @ [(Fin 5, Fin 5)],
              bbox_history := bbox_history track_missed @ [det0]\<rparr>
           = track_recovered"
    by (simp add: track_missed_def track_recovered_def)
  have g: "time_since_update track_recovered = 0" "hits track_recovered = 1"
    by (simp_all add: track_recovered_def)
  show ?thesis
    unfolding Sort_update_def match_tracks [OF track_missed_x0 k] t
    by (simp add: emit_one g del: emit_loop.simps)
       (simp add: default_tracker_def no_rows_def)
qed

lemma Sort_init_default: "Sort_init 1 3 (Fin (3/10)) = default_tracker [] 0"
  by (simp add: Sort_init_def default_tracker_def)


lemma tracks_match:
  assumes "KalmanFilter_update ref_lib (KalmanFilter_predict \<lparr>kf_x = x0, kf_P = P\<rparr>) z0
             = Inr \<lparr>kf_x = x0, kf_P = P'\<rparr>"
  shows "Sort_update_tracks ref_lib count (default_tracker [track_after n P] f) [det0] =
     Inr (count, [track_after (Suc n) P'])"
proof -
  have k: "KalmanFilter_update ref_lib (KalmanFilter_predict (kf (track_after n P))) z0
             = Inr \<lparr>kf_x = x0, kf_P = P'\<rparr>"
    using assms by (simp add: track_after_def)
  show ?thesis
    unfolding match_tracks [OF track_after_x0 k]
    by (simp add: track_after_def replicate_append_same)
qed

lemma gate_after:
  "emission_gate (default_tracker trks f) (track_after n P) = (3 \<le> n)"
  "evicted (default_tracker trks f) (track_after n P) = False"
  by (simp_all add: emission_gate_def evicted_def default_tracker_def track_after_def)

lemma emitted_row_after:
  "emitted_row (track_after n P) =
     [Fin 0, Fin 0, Fin 10, Fin 10, Fin (9/10), Fin 0, Fin 0, Fin 0, Fin 0, Fin 0]"
  by (simp add: emitted_row_x0 [OF track_after_x0]) (simp add: track_after_def box0_def)

text \<open>
  C3, as the spec has it, fails: after the third step the track has been corrected
  twice, \<open>hits = 2\<close> is below \<open>min_hits = 3\<close>, and the third step emits nothing.
\<close>

theorem third_step_emits_nothing:
  "Sort_run ref_lib 0 (Sort_init 1 3 (Fin (3/10))) [[det0], [det0], [det0]] =
     Inr (1, default_tracker [track_after 2 P_after2] 3, [no_rows, no_rows, no_rows])
   \<and> rows no_rows = []
   \<and> hits (track_after 2 P_after2) = 2"
  by (simp add: Sort_init_default step_create step_match [OF update_after0]
        step_match [OF update_after1])
     (simp add: no_rows_def track_after_def eval_nat_numeral)

text \<open>
  C3, as the code has it. From an empty tracker with \<open>max_age = 1\<close>, \<open>min_hits = 3\<close> and
  the counter at 0, the detection \<open>(0, 0, 10, 10, 0.9, 0)\<close> on four consecutive steps:
  the first step creates the track with identity 0 and emits nothing, the second and the
  third step emit nothing, and the fourth step emits exactly one row, whose box is
  \<open>(0, 0, 10, 10)\<close> and whose identity is the one given at creation.
\<close>

theorem fourth_step_emits:
  "Sort_update ref_lib 0 (Sort_init 1 3 (Fin (3/10))) [det0] =
     Inr (1, default_tracker [track_after 0 kf_P0] 1, no_rows)
   \<and> Sort_run ref_lib 0 (Sort_init 1 3 (Fin (3/10))) [[det0], [det0], [det0], [det0]] =
       Inr (1, default_tracker [track_after 3 P_after3] 4, [no_rows, no_rows, no_rows, one_row])
   \<and> rows no_rows = []
   \<and> rows one_row =
       [[Fin 0, Fin 0, Fin 10, Fin 10, Fin (9/10), Fin 0, Fin 0, Fin 0, Fin 0,
         Fin (of_int (trk_id (track_after 0 kf_P0)))]]"
  by (simp add: Sort_init_default step_create step_match [OF update_after0]
        step_match [OF update_after1] step_match [OF update_after2])
     (simp add: no_rows_def one_row_def track_after_def eval_nat_numeral)


section \<open>A second object appears\<close>

lemma iou_det1_box0: "iou det1 (box0 @ [Fin 0]) = Fin 0"
  by (simp add: iou_def det1_def box0_def Let_def)

lemma ref_assignment_1x1:
  "linear_sum_assignment ref_lib [[Fin c]] = Inr ([0], [0])"
  by (simp add: ref_lib_def ref_linear_sum_assignment_def Let_def)

lemma associate_det1_box0:
  "associate_detections_to_trackers ref_lib [det1] [box0 @ [Fin 0]] (Fin (3/10))
     = Inr ([], [0], [0])"
proof -
  have m: "matched_indices ref_lib [[Fin 0]] (Suc 0) (Suc 0) (Fin (3/10)) = Inr [(0, 0)]"
    by (simp add: matched_indices_def threshold_matrix_def fgt_def max_count_def
          general_path_def linear_assignment_def ref_assignment_1x1 Let_def)
  have p: "post_filter [[Fin 0]] (Suc 0) (Suc 0) (Fin (3/10)) [(0, 0)] = Inr ([], [0], [0])"
    by (simp add: post_filter_def Let_def)
  show ?thesis
    by (simp add: associate_detections_to_trackers_def iou_batch_def iou_det1_box0 m p Let_def)
qed

lemma predict_created: "fst (KalmanBoxTracker_predict (track_after 0 kf_P0)) = track_missed"
  by (simp add: KalmanBoxTracker_predict_x0 [OF track_after_x0])
     (simp add: track_after_def track_missed_def)

lemma tracks_second:
  "Sort_update_tracks ref_lib 1 (default_tracker [track_after 0 kf_P0] 1) [det1] =
     Inr (2, [track_missed, track_second])"
proof -
  have c: "KalmanBoxTracker_init 1 (det1 @ [Fin 0]) = (2, track_second)"
    by (simp add: KalmanBoxTracker_init_def track_second_def convert_bbox_to_z_def centroid_def
          det1_def Let_def)
  show ?thesis
    by (simp add: Sort_update_tracks_def default_tracker_def predict_loop_x0 [OF track_after_x0]
          compress_box0 delete_tracks_def associate_det1_box0 predict_created c
          del: predict_loop.simps)
qed

lemma emit_two:
  "emit_loop ma mh (Suc (Suc 0)) [a, b] [] =
     ((if time_since_update a > ma then [] else [a]) @ (if time_since_update b > ma then [] else [b]),
      (if time_since_update b < ma \<and> hits b \<ge> mh then [emitted_row b] else [])
        @ (if time_since_update a < ma \<and> hits a \<ge> mh then [emitted_row a] else []))"
  by (simp add: Let_def pop_def)

lemma step_second:
  "Sort_update ref_lib 1 (default_tracker [track_after 0 kf_P0] 1) [det1] =
     Inr (2, default_tracker [track_missed, track_second] 2, no_rows)"
proof -
  have g: "time_since_update track_missed = 1" "time_since_update track_second = 0"
    "hits track_missed = 0" "hits track_second = 0"
    by (simp_all add: track_missed_def track_second_def)
  show ?thesis
    unfolding Sort_update_def tracks_second
    by (simp add: emit_two g del: emit_loop.simps)
       (simp add: default_tracker_def no_rows_def)
qed

theorem identities_increasing_witness:
  "Sort_update ref_lib 1 (default_tracker [track_after 0 kf_P0] 1) [det1] =
     Inr (2, default_tracker [track_missed, track_second] 2, no_rows)
   \<and> sorted_wrt (<) (map trk_id (trackers (default_tracker [track_after 0 kf_P0] 1)))
   \<and> trk_id (track_after 0 kf_P0) < 1
   \<and> Sort_update_tracks ref_lib 1 (default_tracker [track_after 0 kf_P0] 1) [det1] =
       Inr (2, [track_missed] @ [track_second])
   \<and> map trk_id [track_missed] = map trk_id [track_after 0 kf_P0]
   \<and> map trk_id [track_second] = [1]
   \<and> map trk_id (trackers (default_tracker [track_missed, track_second] 2)) = [0, 1]
   \<and> sorted_wrt (<) (map trk_id (trackers (default_tracker [track_missed, track_second] 2)))"
proof -
  have h1: "sorted_wrt (<) (map trk_id (trackers (default_tracker [track_after 0 kf_P0] 1)))"
    by (simp add: default_tracker_def)
  have h2: "\<forall>t\<in>set (trackers (default_tracker [track_after 0 kf_P0] 1)). trk_id t < 1"
    by (simp add: default_tracker_def track_after_def)
  from identities_increasing [OF step_second h1 h2]
  have "sorted_wrt (<) (map trk_id (trackers (default_tracker [track_missed, track_second] 2)))"
    by blast
  then show ?thesis
    using step_second tracks_second h1
    by (simp add: default_tracker_def track_after_def track_missed_def track_second_def)
qed

theorem emission_iff_gate_witness:
  "Sort_update ref_lib 1 (default_tracker [track_after 2 P_after2] 3) [det0] =
     Inr (1, default_tracker [track_after 3 P_after3] 4, one_row)
   \<and> Sort_update_tracks ref_lib 1 (default_tracker [track_after 2 P_after2] 3) [det0] =
       Inr (1, [track_after 3 P_after3])
   \<and> distinct (map trk_id [track_after 3 P_after3])
   \<and> emission_gate (default_tracker [track_after 2 P_after2] 3) (track_after 3 P_after3)
   \<and> emitted_row (track_after 3 P_after3) \<in> set (rows one_row)
   \<and> Sort_update ref_lib 1 (default_tracker [track_after 0 kf_P0] 1) [det0] =
       Inr (1, default_tracker [track_after 1 P_after1] 2, no_rows)
   \<and> Sort_update_tracks ref_lib 1 (default_tracker [track_after 0 kf_P0] 1) [det0] =
       Inr (1, [track_after 1 P_after1])
   \<and> time_since_update (track_after 1 P_after1) < max_age (default_tracker [track_after 0 kf_P0] 1)
   \<and> hits (track_after 1 P_after1) < min_hits (default_tracker [track_after 0 kf_P0] 1)
   \<and> track_after 1 P_after1 \<in> set (trackers (default_tracker [track_after 1 P_after1] 2))
   \<and> emitted_row (track_after 1 P_after1) \<notin> set (rows no_rows)"
proof -
  have s4: "Sort_update ref_lib 1 (default_tracker [track_after 2 P_after2] 3) [det0] =
     Inr (1, default_tracker [track_after 3 P_after3] 4, one_row)"
    using step_match [OF update_after2, of 1 2 3] by (simp add: eval_nat_numeral)
  have t4: "Sort_update_tracks ref_lib 1 (default_tracker [track_after 2 P_after2] 3) [det0] =
       Inr (1, [track_after 3 P_after3])"
    using tracks_match [OF update_after2, of 1 2 3] by (simp add: eval_nat_numeral)
  have s2: "Sort_update ref_lib 1 (default_tracker [track_after 0 kf_P0] 1) [det0] =
       Inr (1, default_tracker [track_after 1 P_after1] 2, no_rows)"
    using step_match [OF update_after0, of 1 0 1] by simp
  have t2: "Sort_update_tracks ref_lib 1 (default_tracker [track_after 0 kf_P0] 1) [det0] =
       Inr (1, [track_after 1 P_after1])"
    using tracks_match [OF update_after0, of 1 0 1] by simp
  from emission_iff_gate [OF s4] t4
  have a: "emitted_row (track_after 3 P_after3) \<in> set (rows one_row)
             = emission_gate (default_tracker [track_after 2 P_after2] 3) (track_after 3 P_after3)"
    by simp
  from emission_iff_gate [OF s2] t2
  have b: "track_after 1 P_after1 \<in> set (trackers (default_tracker [track_after 1 P_after1] 2))"
    by (simp add: default_tracker_def track_after_def)
  from a b s4 t4 s2 t2 show ?thesis
    by (simp add: gate_after) (simp add: default_tracker_def track_after_def no_rows_def)
qed

theorem output_width_witness:
  "Sort_update ref_lib 1 (default_tracker [track_after 2 P_after2] 3) [det0] =
     Inr (1, default_tracker [track_after 3 P_after3] 4, one_row)
   \<and> Sort_update_tracks ref_lib 1 (default_tracker [track_after 2 P_after2] 3) [det0] =
       Inr (1, [track_after 3 P_after3])
   \<and> emission_gate (default_tracker [track_after 2 P_after2] 3) (track_after 3 P_after3)
   \<and> shape one_row = (1, 10)
   \<and> map length (rows one_row) = [10]
   \<and> Sort_update ref_lib 1 (default_tracker [track_after 0 kf_P0] 1) [det0] =
       Inr (1, default_tracker [track_after 1 P_after1] 2, no_rows)
   \<and> Sort_update_tracks ref_lib 1 (default_tracker [track_after 0 kf_P0] 1) [det0] =
       Inr (1, [track_after 1 P_after1])
   \<and> \<not> emission_gate (default_tracker [track_after 0 kf_P0] 1) (track_after 1 P_after1)
   \<and> shape no_rows = (0, 6)"
proof -
  have s4: "Sort_update ref_lib 1 (default_tracker [track_after 2 P_after2] 3) [det0] =
     Inr (1, default_tracker [track_after 3 P_after3] 4, one_row)"
    using step_match [OF update_after2, of 1 2 3] by (simp add: eval_nat_numeral)
  have t4: "Sort_update_tracks ref_lib 1 (default_tracker [track_after 2 P_after2] 3) [det0] =
       Inr (1, [track_after 3 P_after3])"
    using tracks_match [OF update_after2, of 1 2 3] by (simp add: eval_nat_numeral)
  have s2: "Sort_update ref_lib 1 (default_tracker [track_after 0 kf_P0] 1) [det0] =
       Inr (1, default_tracker [track_after 1 P_after1] 2, no_rows)"
    using step_match [OF update_after0, of 1 0 1] by simp
  have t2: "Sort_update_tracks ref_lib 1 (default_tracker [track_after 0 kf_P0] 1) [det0] =
       Inr (1, [track_after 1 P_after1])"
    using tracks_match [OF update_after0, of 1 0 1] by simp
  from output_width [OF s4] t4
  have a: "shape one_row = (1, 10) \<and> (\<forall>r\<in>set (rows one_row). length r = 10)"
    by (simp add: gate_after)
  from output_width [OF s2] t2
  have b: "shape no_rows = (0, 6)"
    by (simp add: gate_after)
  from a b s4 t4 s2 t2 show ?thesis
    by (simp add: gate_after) (simp add: one_row_def)
qed

text \<open>
  C2, as the claim has it, fails: a track that was not matched in one step and is
  matched in the next has \<open>time_since_update = 2\<close> after the prediction of that step,
  above \<open>max_age = 1\<close>, and it stays in the list, because the match puts its
  \<open>time_since_update\<close> back to 0 before the eviction test.
\<close>

theorem matched_after_miss_is_kept:
  "Sort_run ref_lib 0 (Sort_init 1 3 (Fin (3/10))) [[det0], []] =
     Inr (1, default_tracker [track_missed] 2, [no_rows, no_rows])
   \<and> max_age (default_tracker [track_missed] 2) = 1
   \<and> time_since_update (fst (KalmanBoxTracker_predict track_missed)) = 2
   \<and> Sort_update ref_lib 1 (default_tracker [track_missed] 2) [det0] =
       Inr (1, default_tracker [track_recovered] 3, no_rows)
   \<and> trackers (default_tracker [track_recovered] 3) = [track_recovered]
   \<and> trk_id track_recovered = trk_id track_missed"
  by (simp add: Sort_init_default step_create step_miss step_recover
        KalmanBoxTracker_predict_x0 [OF track_missed_x0])
     (simp add: default_tracker_def track_missed_def track_recovered_def)

theorem eviction_rule_witness:
  "Sort_update ref_lib 1 (default_tracker [track_after 0 kf_P0] 1) [] =
     Inr (1, default_tracker [track_missed] 2, no_rows)
   \<and> Sort_update ref_lib 1 (default_tracker [track_missed] 2) [det0] =
       Inr (1, default_tracker [track_recovered] 3, no_rows)
   \<and> max_age (default_tracker [track_after 0 kf_P0] 1) = 1
   \<and> sorted_wrt (<) (map trk_id (trackers (default_tracker [track_after 0 kf_P0] 1)))
   \<and> trk_id (track_after 0 kf_P0) < 1
   \<and> track_after 0 kf_P0 \<in> set (trackers (default_tracker [track_after 0 kf_P0] 1))
   \<and> 0 \<le> time_since_update (track_after 0 kf_P0)
   \<and> track_recovered \<in> set (trackers (default_tracker [track_recovered] 3))
   \<and> trk_id track_recovered = trk_id (track_after 0 kf_P0)
   \<and> hits (track_after 0 kf_P0) < hits track_recovered
   \<and> \<not> has_nan (track_after 0 kf_P0)
   \<and> upd_rel (fst (KalmanBoxTracker_predict (track_after 0 kf_P0))) track_missed
   \<and> \<not> max_age (default_tracker [track_after 0 kf_P0] 1) < time_since_update track_missed"
proof -
  have s1: "Sort_update ref_lib 1 (default_tracker [track_after 0 kf_P0] 1) [] =
     Inr (1, default_tracker [track_missed] 2, no_rows)"
    using step_miss [of ref_lib 1 1] by simp
  have s2: "Sort_update ref_lib 1 (default_tracker [track_missed] 2) [det0] =
       Inr (1, default_tracker [track_recovered] 3, no_rows)"
    using step_recover [of 1 2] by simp
  have h: "max_age (default_tracker [track_after 0 kf_P0] 1) = 1
      \<and> sorted_wrt (<) (map trk_id (trackers (default_tracker [track_after 0 kf_P0] 1)))
      \<and> (\<forall>t\<in>set (trackers (default_tracker [track_after 0 kf_P0] 1)). trk_id t < 1)
      \<and> track_after 0 kf_P0 \<in> set (trackers (default_tracker [track_after 0 kf_P0] 1))
      \<and> 0 \<le> time_since_update (track_after 0 kf_P0)
      \<and> track_recovered \<in> set (trackers (default_tracker [track_recovered] 3))
      \<and> trk_id track_recovered = trk_id (track_after 0 kf_P0)"
    by (simp add: default_tracker_def track_after_def track_recovered_def)
  from eviction_rule [OF s1] s2 h
  have "hits (track_after 0 kf_P0) < hits track_recovered"
    by blast
  then show ?thesis
    using s1 s2 h has_nan_x0 [OF track_after_x0]
    by (simp add: predict_created upd_rel_def) (simp add: default_tracker_def track_missed_def)
qed


section \<open>Prediction of one track\<close>





section \<open>Degenerate predictions\<close>

text \<open>
  A track whose predicted box holds a NaN is deleted and its row is dropped, and a track
  whose predicted box is finite keeps both. So when every predicted box that is not
  finite holds a NaN, the rows handed to the association are the rows of the tracks that
  are kept, in the same order.
\<close>

lemma isfinite_not_nan: "isfinite v \<Longrightarrow> \<not> isnan v"
  by (cases v) (simp_all add: isnan_def)

lemma predicted_row_nan: "has_nan trk \<Longrightarrow> \<not> list_all isfinite (predicted_row trk)"
proof -
  assume h: "has_nan trk"
  obtain a b c d e where p: "snd (KalmanBoxTracker_predict trk) = [a, b, c, d, e]"
    by (simp add: KalmanBoxTracker_predict_def convert_x_to_bbox_def Let_def)
  have "isnan a \<or> isnan b \<or> isnan c \<or> isnan d \<or> isnan e"
    using h by (simp add: has_nan_def p)
  then have "\<not> (isfinite a \<and> isfinite b \<and> isfinite c \<and> isfinite d \<and> isfinite e)"
    using isfinite_not_nan by blast
  then show ?thesis by (simp add: predicted_row_def p Let_def)
qed

lemma rows_aligned:
  assumes "\<forall>trk\<in>set trks. \<not> has_nan trk \<longrightarrow> list_all isfinite (predicted_row trk)"
  shows "compress_rows_masked_invalid (map predicted_row trks)
           = map predicted_row (filter (\<lambda>trk. \<not> has_nan trk) trks)"
  using assms
  by (induction trks) (auto simp: compress_rows_masked_invalid_def dest: predicted_row_nan)

lemma convert_x_flat: "convert_x_to_bbox x_flat = [Fin 0, NInf, Fin 0, PInf, Fin (9/10)]"
  by (simp add: convert_x_to_bbox_def x_flat_def Let_def inf_of_sign_def fsub_def)

lemma predict_x_flat: "kf_x k = x_flat \<Longrightarrow> kf_x (KalmanFilter_predict k) = x_flat"
  by (simp add: KalmanFilter_predict_def mat_vec_def kf_F_def x_flat_def)

lemma predict_track_flat:
  "KalmanBoxTracker_predict track_flat =
     (track_flat\<lparr>kf := KalmanFilter_predict \<lparr>kf_x = x_flat, kf_P = kf_P0\<rparr>,
                 age := 1, time_since_update := 1,
                 history := [[Fin 0, NInf, Fin 0, PInf, Fin (9/10)]]\<rparr>,
      [Fin 0, NInf, Fin 0, PInf, Fin (9/10)])"
proof -
  have nz: "\<not> fle (fadd (x_flat ! 7) (x_flat ! 2)) (Fin 0)" by (simp add: x_flat_def)
  have k: "kf track_flat = \<lparr>kf_x = x_flat, kf_P = kf_P0\<rparr>" by (simp add: track_flat_def)
  have box: "convert_x_to_bbox (kf_x (KalmanFilter_predict \<lparr>kf_x = x_flat, kf_P = kf_P0\<rparr>))
               = [Fin 0, NInf, Fin 0, PInf, Fin (9/10)]"
    by (simp add: predict_x_flat convert_x_flat)
  show ?thesis
    by (simp add: KalmanBoxTracker_predict_def k nz box Let_def) (simp add: track_flat_def)
qed

lemma track_other_x0: "kf_x (kf track_other) = x0"
  by (simp add: track_other_def)

lemma predict_track_other: "fst (KalmanBoxTracker_predict track_other) = track_other_missed"
  by (simp add: KalmanBoxTracker_predict_x0 [OF track_other_x0])
     (simp add: track_other_def track_other_missed_def)

lemma update_flat:
  "KalmanFilter_update ref_lib (KalmanFilter_predict \<lparr>kf_x = x_flat, kf_P = kf_P0\<rparr>) z0
     = Inr \<lparr>kf_x = map Fin [50055 / 10012, 50055 / 10012, 1001120 / 10021, 11 / 21, 9 / 10,
                            12500 / 2503, 12500 / 2503, 980000 / 10021],
            kf_P = P_after1\<rparr>"
  by (simp add: KalmanFilter_update_def KalmanFilter_predict_def linalg_defs ref_inv_defs
        x_flat_def z0_def P_after1_def Let_def upt_rec)

lemma predict_loop_flat:
  "predict_loop [track_flat, track_other] 0 =
     ([fst (KalmanBoxTracker_predict track_flat), track_other_missed],
      [[Fin 0, NInf, Fin 0, PInf, Fin (9/10), Fin 0], box0 @ [Fin 0]], [])"
proof -
  have a: "\<not> has_nan track_flat" by (simp add: has_nan_def predict_track_flat isnan_def)
  have b: "predicted_row track_flat = [Fin 0, NInf, Fin 0, PInf, Fin (9/10), Fin 0]"
    by (simp add: predicted_row_def predict_track_flat Let_def)
  show ?thesis
    using a b has_nan_x0 [OF track_other_x0] predicted_row_x0 [OF track_other_x0]
    by (simp add: predict_loop_eq predict_track_other)
qed

lemma tracks_flat:
  "Sort_update_tracks ref_lib 2 (default_tracker [track_flat, track_other] 1) [det0] =
     Inr (2, [track_flat_corrected, track_other_missed])"
proof -
  have d5: "det0 ! 5 = Fin 0" by (simp add: det0_def)
  have c: "compress_rows_masked_invalid
             [[Fin 0, NInf, Fin 0, PInf, Fin (9/10), Fin 0], box0 @ [Fin 0]] = [box0 @ [Fin 0]]"
    by (simp add: compress_rows_masked_invalid_def box0_def)
  have u: "KalmanBoxTracker_update ref_lib (fst (KalmanBoxTracker_predict track_flat)) det0
             = Inr track_flat_corrected"
    by (simp add: KalmanBoxTracker_update_def predict_track_flat convert_det0 centroid_det0 d5
          update_flat)
       (simp add: track_flat_def track_flat_corrected_def)
  show ?thesis
    by (simp add: Sort_update_tracks_def default_tracker_def predict_loop_flat c delete_tracks_def
          associate_det0_box0 u del: predict_loop.simps)
qed

text \<open>
  C5 fails on the code. The predicted box of \<open>track_flat\<close> holds two infinities and no
  NaN: the test of line 185 (\<^verbatim>\<open>np.isnan\<close>) keeps the track in the list, while line 187
  (\<^verbatim>\<open>masked_invalid\<close>) drops its row. The detection \<open>det0\<close> coincides with the predicted
  box of \<open>track_other\<close>, the only row left, at index 0; index 0 of the list is
  \<open>track_flat\<close>, and that track is corrected with the detection, while \<open>track_other\<close> goes
  without its match.
\<close>

theorem infinite_box_track_is_kept_and_corrected:
  "snd (KalmanBoxTracker_predict track_flat) = [Fin 0, NInf, Fin 0, PInf, Fin (9/10)]
   \<and> \<not> list_all isfinite (snd (KalmanBoxTracker_predict track_flat))
   \<and> \<not> has_nan track_flat
   \<and> iou det0 (predicted_row track_other) = Fin 1
   \<and> Sort_update_tracks ref_lib 2 (default_tracker [track_flat, track_other] 1) [det0] =
       Inr (2, [track_flat_corrected, track_other_missed])
   \<and> trk_id track_flat_corrected = trk_id track_flat
   \<and> hits track_flat_corrected = hits track_flat + 1
   \<and> trk_id track_other_missed = trk_id track_other
   \<and> hits track_other_missed = hits track_other
   \<and> time_since_update track_other_missed = 1"
  by (simp add: predict_track_flat has_nan_def isnan_def predicted_row_x0 [OF track_other_x0]
        iou_det0_box0 tracks_flat)
     (simp add: track_flat_def track_flat_corrected_def track_other_def track_other_missed_def)


section \<open>The fast path of the association\<close>

lemma iou_batch_shape:
  "length (iou_batch dets trks) = length dets"
  "d < length dets \<Longrightarrow> length (iou_batch dets trks ! d) = length trks"
  "d < length dets \<Longrightarrow> t < length trks \<Longrightarrow>
     iou_batch dets trks ! d ! t = iou (dets ! d) (trks ! t)"
  by (simp_all add: iou_batch_def)

lemma threshold_matrix_shape:
  "length (threshold_matrix M thr) = length M"
  "d < length M \<Longrightarrow> length (threshold_matrix M thr ! d) = length (M ! d)"
  "d < length M \<Longrightarrow> t < length (M ! d) \<Longrightarrow>
     threshold_matrix M thr ! d ! t = (if fgt (M ! d ! t) thr then 1 else 0)"
  by (simp_all add: threshold_matrix_def)

lemma set_where_nonzero:
  "set (where_nonzero a) = {(d, t). d < length a \<and> t < length (a ! d) \<and> a ! d ! t \<noteq> 0}"
  by (auto simp: where_nonzero_def)

lemma set_where_over_threshold:
  "set (where_nonzero (threshold_matrix (iou_batch dets trks) thr)) =
     {(d, t). d < length dets \<and> t < length trks \<and> fgt (iou (dets ! d) (trks ! t)) thr}"
  by (auto simp: set_where_nonzero threshold_matrix_shape iou_batch_shape split: if_splits)

lemma fgt_not_flt: "fgt v thr \<Longrightarrow> \<not> flt v thr"
  by (cases v; cases thr) (simp_all add: fgt_def)

lemma filter_matches_range:
  "filter_matches M thr ms acc = Inr r \<Longrightarrow>
   \<forall>m\<in>set ms. fst m < length M \<and> snd m < length (M ! fst m)"
proof (induction ms arbitrary: acc)
  case Nil
  then show ?case by simp
next
  case (Cons m ms)
  obtain a ud ut where acc: "acc = (a, ud, ut)" by (cases acc)
  from Cons.prems have r: "fst m < length M \<and> snd m < length (M ! fst m)"
    unfolding acc by (simp split: if_splits)
  from Cons.prems r obtain acc' where "filter_matches M thr ms acc' = Inr r"
    unfolding acc by (auto split: if_splits)
  from Cons.IH [OF this] r show ?case by simp
qed

lemma filter_matches_eq:
  "\<forall>m\<in>set ms. fst m < length M \<and> snd m < length (M ! fst m) \<Longrightarrow>
   filter_matches M thr ms (a, ud, ut) =
     Inr (a @ filter (\<lambda>m. \<not> flt (M ! fst m ! snd m) thr) ms,
          ud @ map fst (filter (\<lambda>m. flt (M ! fst m ! snd m) thr) ms),
          ut @ map snd (filter (\<lambda>m. flt (M ! fst m ! snd m) thr) ms))"
  by (induction ms arbitrary: a ud ut) simp_all

lemma max_count_Nil: "max_count [] = 0"
  by (simp add: max_count_def)


text \<open>
  What the shortcut returns, whatever the solver: the pairs over the threshold are the
  matches, and the detections and tracks in no such pair are unmatched.
\<close>

lemma fast_path_result:
  assumes "trks \<noteq> []"
      and "max_count (map sum_list (threshold_matrix (iou_batch dets trks) thr)) = 1"
      and "max_count (map sum_list (transpose (threshold_matrix (iou_batch dets trks) thr))) = 1"
  shows "associate_detections_to_trackers L dets trks thr =
     Inr (where_nonzero (threshold_matrix (iou_batch dets trks) thr),
          filter (\<lambda>d. d \<notin> fst ` set (where_nonzero (threshold_matrix (iou_batch dets trks) thr)))
                 [0..<length dets],
          filter (\<lambda>t. t \<notin> snd ` set (where_nonzero (threshold_matrix (iou_batch dets trks) thr)))
                 [0..<length trks])"
proof -
  let ?M = "iou_batch dets trks"
  let ?W = "where_nonzero (threshold_matrix ?M thr)"
  have d: "dets \<noteq> []"
  proof
    assume "dets = []"
    then have "threshold_matrix ?M thr = []" by (simp add: threshold_matrix_def iou_batch_def)
    then show False using assms(2) by (simp add: max_count_Nil)
  qed
  have m: "matched_indices L ?M (length dets) (length trks) thr = Inr ?W"
    using assms d by (simp add: matched_indices_def Let_def)
  have rng: "\<forall>m\<in>set ?W. fst m < length ?M \<and> snd m < length (?M ! fst m)"
    by (auto simp: set_where_over_threshold iou_batch_shape)
  have keep: "filter (\<lambda>m. \<not> flt (?M ! fst m ! snd m) thr) ?W = ?W"
    by (rule filter_True) (auto simp: set_where_over_threshold iou_batch_shape dest: fgt_not_flt)
  have drop: "filter (\<lambda>m. flt (?M ! fst m ! snd m) thr) ?W = []"
    by (rule filter_False) (auto simp: set_where_over_threshold iou_batch_shape dest: fgt_not_flt)
  show ?thesis
    using assms(1)
    by (simp add: associate_detections_to_trackers_def m post_filter_def Let_def
          filter_matches_eq [OF rng] keep drop)
qed

lemma general_path_result:
  assumes "trks \<noteq> []" and "dets \<noteq> []"
      and "linear_assignment L (map (map fneg) (iou_batch dets trks)) = Inr mi"
      and "associate_general L dets trks thr = Inr (mg, udg, utg)"
  shows "mg = filter (\<lambda>m. \<not> flt (iou (dets ! fst m) (trks ! snd m)) thr) mi"
    and "udg = filter (\<lambda>d. d \<notin> fst ` set mi) [0..<length dets]
                 @ map fst (filter (\<lambda>m. flt (iou (dets ! fst m) (trks ! snd m)) thr) mi)"
    and "utg = filter (\<lambda>t. t \<notin> snd ` set mi) [0..<length trks]
                 @ map snd (filter (\<lambda>m. flt (iou (dets ! fst m) (trks ! snd m)) thr) mi)"
    and "\<forall>m\<in>set mi. fst m < length dets \<and> snd m < length trks"
proof -
  let ?M = "iou_batch dets trks"
  have p: "post_filter ?M (length dets) (length trks) thr mi = Inr (mg, udg, utg)"
    using assms by (auto simp: associate_general_def general_path_def Let_def split: if_splits)
  then have f: "filter_matches ?M thr mi
      ([], filter (\<lambda>d. d \<notin> fst ` set mi) [0..<length dets],
           filter (\<lambda>t. t \<notin> snd ` set mi) [0..<length trks]) = Inr (mg, udg, utg)"
    by (simp add: post_filter_def Let_def)
  have rng: "\<forall>m\<in>set mi. fst m < length ?M \<and> snd m < length (?M ! fst m)"
    using filter_matches_range [OF f] .
  then show r: "\<forall>m\<in>set mi. fst m < length dets \<and> snd m < length trks"
    by (auto simp: iou_batch_shape)
  have e: "\<And>P. filter (\<lambda>m. P (?M ! fst m ! snd m)) mi
             = filter (\<lambda>m. P (iou (dets ! fst m) (trks ! snd m))) mi"
    by (rule filter_cong [OF refl]) (simp add: iou_batch_shape r)
  from f show "mg = filter (\<lambda>m. \<not> flt (iou (dets ! fst m) (trks ! snd m)) thr) mi"
    unfolding filter_matches_eq [OF rng] using e [of "\<lambda>v. \<not> flt v thr"] by simp
  from f show "udg = filter (\<lambda>d. d \<notin> fst ` set mi) [0..<length dets]
                 @ map fst (filter (\<lambda>m. flt (iou (dets ! fst m) (trks ! snd m)) thr) mi)"
    unfolding filter_matches_eq [OF rng] using e [of "\<lambda>v. flt v thr"] by simp
  from f show "utg = filter (\<lambda>t. t \<notin> snd ` set mi) [0..<length trks]
                 @ map snd (filter (\<lambda>m. flt (iou (dets ! fst m) (trks ! snd m)) thr) mi)"
    unfolding filter_matches_eq [OF rng] using e [of "\<lambda>v. flt v thr"] by simp
qed


lemma set_over_threshold:
  "set (over_threshold dets trks thr) =
     {(d, t). d < length dets \<and> t < length trks \<and> fgt (iou (dets ! d) (trks ! t)) thr}"
  by (simp add: over_threshold_def set_where_over_threshold)

text \<open>
  C4, as the spec has it, fails: the thresholded matrix of \<open>dets_cross\<close> and
  \<open>trks_cross\<close> has one nonzero entry, so the shortcut is taken and matches detection 0
  with track 0; the assignment of maximum total IoU is the other one (a quarter plus a
  quarter against a third plus nothing), both of its pairs are below the threshold, and
  the general path followed by the post-filter matches nothing.
\<close>

theorem fast_path_differs:
  "iou_batch dets_cross trks_cross = [[Fin (1/3), Fin (1/4)], [Fin (1/4), Fin 0]]
   \<and> threshold_matrix (iou_batch dets_cross trks_cross) (Fin (3/10)) = [[1, 0], [0, 0]]
   \<and> assignment_cost (map (map fneg) (iou_batch dets_cross trks_cross)) [(0, 0), (1, 1)]
       = Fin (- (1/3))
   \<and> assignment_cost (map (map fneg) (iou_batch dets_cross trks_cross)) [(0, 1), (1, 0)]
       = Fin (- (1/2))
   \<and> associate_detections_to_trackers ref_lib dets_cross trks_cross (Fin (3/10))
       = Inr ([(0, 0)], [1], [1])
   \<and> associate_general ref_lib dets_cross trks_cross (Fin (3/10))
       = Inr ([], [0, 1], [1, 0])"
proof -
  have M: "iou_batch dets_cross trks_cross = [[Fin (1/3), Fin (1/4)], [Fin (1/4), Fin 0]]"
    by (simp add: iou_batch_def iou_def dets_cross_def trks_cross_def Let_def)
  have a: "threshold_matrix [[Fin (1/3), Fin (1/4)], [Fin (1/4), Fin 0]] (Fin (3/10))
             = [[1, 0], [0, 0]]"
    by (simp add: threshold_matrix_def fgt_def)
  have c: "assignment_cost [[Fin (- (1/3)), Fin (- (1/4))], [Fin (- (1/4)), Fin 0]] [(0, 0), (1, 1)]
             = Fin (- (1/3))"
          "assignment_cost [[Fin (- (1/3)), Fin (- (1/4))], [Fin (- (1/4)), Fin 0]] [(0, 1), (1, 0)]
             = Fin (- (1/2))"
    by (simp_all add: assignment_cost_def)
  have l: "linear_sum_assignment ref_lib [[Fin (- (1/3)), Fin (- (1/4))], [Fin (- (1/4)), Fin 0]]
             = Inr ([0, 1], [1, 0])"
    by (simp add: ref_lib_def ref_linear_sum_assignment_def Let_def assignment_cost_def upt_rec)
  have w: "where_nonzero [[Suc 0, 0], [0, 0]] = [(0, 0)]"
    by (simp add: where_nonzero_def)
  have len: "length dets_cross = Suc (Suc 0)" "length trks_cross = Suc (Suc 0)"
    by (simp_all add: dets_cross_def trks_cross_def)
  have fast: "associate_detections_to_trackers ref_lib dets_cross trks_cross (Fin (3/10))
       = Inr ([(0, 0)], [1], [1])"
    by (simp add: associate_detections_to_trackers_def M len matched_indices_def a w
          max_count_def post_filter_def Let_def)
  have gen: "associate_general ref_lib dets_cross trks_cross (Fin (3/10))
       = Inr ([], [0, 1], [1, 0])"
    by (simp add: associate_general_def M len general_path_def linear_assignment_def l
          post_filter_def Let_def)
  show ?thesis
    using M a c fast gen by simp
qed

text \<open>
  C4, as the code has it. When the thresholded IoU matrix has a nonzero entry and at
  most one in every row and in every column, the association returns, whatever the
  solver, the pairs whose IoU exceeds the threshold as matches and the detections and
  the tracks in none of these pairs as unmatched. The general path followed by the
  post-filter returns the same set of matches, of unmatched detections and of unmatched
  tracks whenever the assignment of the solver is one-to-one, contains every pair whose
  IoU exceeds the threshold, and each of its other pairs has an IoU below the threshold.
\<close>

theorem fast_path_agrees_when_contained:
  assumes "trks \<noteq> []"
      and "max_count (map sum_list (threshold_matrix (iou_batch dets trks) thr)) = 1"
      and "max_count (map sum_list (transpose (threshold_matrix (iou_batch dets trks) thr))) = 1"
  shows "associate_detections_to_trackers L dets trks thr =
           Inr (over_threshold dets trks thr,
                filter (\<lambda>d. d \<notin> fst ` set (over_threshold dets trks thr)) [0..<length dets],
                filter (\<lambda>t. t \<notin> snd ` set (over_threshold dets trks thr)) [0..<length trks])
       \<and> set (over_threshold dets trks thr) =
           {(d, t). d < length dets \<and> t < length trks \<and> fgt (iou (dets ! d) (trks ! t)) thr}
       \<and> (\<forall>mi mg udg utg.
             linear_assignment L (map (map fneg) (iou_batch dets trks)) = Inr mi
             \<and> associate_general L dets trks thr = Inr (mg, udg, utg)
             \<and> distinct (map fst mi) \<and> distinct (map snd mi)
             \<and> set (over_threshold dets trks thr) \<subseteq> set mi
             \<and> (\<forall>m\<in>set mi. m \<notin> set (over_threshold dets trks thr)
                    \<longrightarrow> flt (iou (dets ! fst m) (trks ! snd m)) thr)
             \<longrightarrow> set mg = set (over_threshold dets trks thr)
                 \<and> set udg = {d. d < length dets \<and> d \<notin> fst ` set (over_threshold dets trks thr)}
                 \<and> set utg = {t. t < length trks \<and> t \<notin> snd ` set (over_threshold dets trks thr)})"
proof -
  let ?W = "over_threshold dets trks thr"
  have fast: "associate_detections_to_trackers L dets trks thr =
           Inr (?W, filter (\<lambda>d. d \<notin> fst ` set ?W) [0..<length dets],
                filter (\<lambda>t. t \<notin> snd ` set ?W) [0..<length trks])"
    unfolding over_threshold_def by (rule fast_path_result [OF assms])
  have d: "dets \<noteq> []"
  proof
    assume "dets = []"
    then have "threshold_matrix (iou_batch dets trks) thr = []"
      by (simp add: threshold_matrix_def iou_batch_def)
    then show False using assms(2) by (simp add: max_count_Nil)
  qed
  have agree: "set mg = set ?W
                 \<and> set udg = {d. d < length dets \<and> d \<notin> fst ` set ?W}
                 \<and> set utg = {t. t < length trks \<and> t \<notin> snd ` set ?W}"
    if la: "linear_assignment L (map (map fneg) (iou_batch dets trks)) = Inr mi"
      and ag: "associate_general L dets trks thr = Inr (mg, udg, utg)"
      and df: "distinct (map fst mi)" and ds: "distinct (map snd mi)"
      and sub: "set ?W \<subseteq> set mi"
      and low: "\<forall>m\<in>set mi. m \<notin> set ?W \<longrightarrow> flt (iou (dets ! fst m) (trks ! snd m)) thr"
    for mi mg udg utg
  proof -
    note g = general_path_result [OF assms(1) d la ag]
    have over: "\<not> flt (iou (dets ! fst m) (trks ! snd m)) thr" if "m \<in> set ?W" for m
      using that by (auto simp: set_over_threshold dest: fgt_not_flt)
    have inW: "m \<in> set ?W \<longleftrightarrow> \<not> flt (iou (dets ! fst m) (trks ! snd m)) thr"
      if "m \<in> set mi" for m
      using that low over by blast
    have fi: "inj_on fst (set mi)" and si: "inj_on snd (set mi)"
      using df ds by (simp_all add: distinct_map)
    have m: "set mg = set ?W"
      unfolding g(1) using inW sub by auto
    have rowW: "fst m \<notin> fst ` set ?W" if "m \<in> set mi" "m \<notin> set ?W" for m
    proof
      assume "fst m \<in> fst ` set ?W"
      then obtain m' where m': "m' \<in> set ?W" "fst m' = fst m" by auto
      then have "m' = m" using fi sub that(1) by (meson inj_onD subsetD)
      then show False using m'(1) that(2) by simp
    qed
    have colW: "snd m \<notin> snd ` set ?W" if "m \<in> set mi" "m \<notin> set ?W" for m
    proof
      assume "snd m \<in> snd ` set ?W"
      then obtain m' where m': "m' \<in> set ?W" "snd m' = snd m" by auto
      then have "m' = m" using si sub that(1) by (meson inj_onD subsetD)
      then show False using m'(1) that(2) by simp
    qed
    have ud: "set udg = {d. d < length dets \<and> d \<notin> fst ` set ?W}"
    proof (rule set_eqI, rule iffI)
      fix d
      assume "d \<in> set udg"
      then consider "d < length dets" "d \<notin> fst ` set mi"
        | m where "m \<in> set mi" "flt (iou (dets ! fst m) (trks ! snd m)) thr" "d = fst m"
        unfolding g(2) by auto
      then show "d \<in> {d. d < length dets \<and> d \<notin> fst ` set ?W}"
      proof cases
        case 1
        then show ?thesis using sub by auto
      next
        case 2
        then have "m \<notin> set ?W" using inW by blast
        then show ?thesis using 2 g(4) rowW by auto
      qed
    next
      fix d
      assume "d \<in> {d. d < length dets \<and> d \<notin> fst ` set ?W}"
      then have dl: "d < length dets" and dn: "d \<notin> fst ` set ?W" by auto
      show "d \<in> set udg"
      proof (cases "d \<in> fst ` set mi")
        case False
        then show ?thesis unfolding g(2) using dl by simp
      next
        case True
        then obtain m where mm: "m \<in> set mi" "fst m = d" by auto
        then have "m \<notin> set ?W" using dn by force
        then have "flt (iou (dets ! fst m) (trks ! snd m)) thr" using low mm(1) by blast
        then show ?thesis unfolding g(2) using mm by force
      qed
    qed
    have ut: "set utg = {t. t < length trks \<and> t \<notin> snd ` set ?W}"
    proof (rule set_eqI, rule iffI)
      fix t
      assume "t \<in> set utg"
      then consider "t < length trks" "t \<notin> snd ` set mi"
        | m where "m \<in> set mi" "flt (iou (dets ! fst m) (trks ! snd m)) thr" "t = snd m"
        unfolding g(3) by auto
      then show "t \<in> {t. t < length trks \<and> t \<notin> snd ` set ?W}"
      proof cases
        case 1
        then show ?thesis using sub by auto
      next
        case 2
        then have "m \<notin> set ?W" using inW by blast
        then show ?thesis using 2 g(4) colW by auto
      qed
    next
      fix t
      assume "t \<in> {t. t < length trks \<and> t \<notin> snd ` set ?W}"
      then have tl: "t < length trks" and tn: "t \<notin> snd ` set ?W" by auto
      show "t \<in> set utg"
      proof (cases "t \<in> snd ` set mi")
        case False
        then show ?thesis unfolding g(3) using tl by simp
      next
        case True
        then obtain m where mm: "m \<in> set mi" "snd m = t" by auto
        then have "m \<notin> set ?W" using tn by force
        then have "flt (iou (dets ! fst m) (trks ! snd m)) thr" using low mm(1) by blast
        then show ?thesis unfolding g(3) using mm by force
      qed
    qed
    from m ud ut show ?thesis by simp
  qed
  from fast set_over_threshold [of dets trks thr] agree show ?thesis by blast
qed


theorem fast_path_agrees_when_contained_witness:
  "trks_pair \<noteq> []
   \<and> max_count (map sum_list (threshold_matrix (iou_batch dets_pair trks_pair) (Fin (3/10)))) = 1
   \<and> max_count (map sum_list (transpose (threshold_matrix (iou_batch dets_pair trks_pair)
                                                             (Fin (3/10))))) = 1
   \<and> linear_assignment ref_lib (map (map fneg) (iou_batch dets_pair trks_pair))
       = Inr [(0, 0), (1, 1)]
   \<and> distinct (map fst [(0::nat, 0::nat), (1, 1)]) \<and> distinct (map snd [(0::nat, 0::nat), (1, 1)])
   \<and> over_threshold dets_pair trks_pair (Fin (3/10)) = [(0, 0)]
   \<and> flt (iou (dets_pair ! 1) (trks_pair ! 1)) (Fin (3/10))
   \<and> associate_general ref_lib dets_pair trks_pair (Fin (3/10)) = Inr ([(0, 0)], [1], [1])
   \<and> associate_detections_to_trackers ref_lib dets_pair trks_pair (Fin (3/10))
       = Inr ([(0, 0)], [1], [1])"
proof -
  have M: "iou_batch dets_pair trks_pair = [[Fin 1, Fin 0], [Fin 0, Fin (1/9)]]"
    by (simp add: iou_batch_def iou_def dets_pair_def trks_pair_def det0_def det1_def Let_def)
  have a: "threshold_matrix [[Fin 1, Fin 0], [Fin 0, Fin (1/9)]] (Fin (3/10))
             = [[Suc 0, 0], [0, 0]]"
    by (simp add: threshold_matrix_def fgt_def)
  have h1: "trks_pair \<noteq> []" by (simp add: trks_pair_def)
  have h2: "max_count (map sum_list (threshold_matrix (iou_batch dets_pair trks_pair)
                                                        (Fin (3/10)))) = 1"
    by (simp add: M a max_count_def)
  have h3: "max_count (map sum_list (transpose (threshold_matrix (iou_batch dets_pair trks_pair)
                                                                   (Fin (3/10))))) = 1"
    by (simp add: M a max_count_def)
  have w: "over_threshold dets_pair trks_pair (Fin (3/10)) = [(0, 0)]"
    by (simp add: over_threshold_def M a where_nonzero_def)
  have len: "length dets_pair = Suc (Suc 0)" "length trks_pair = Suc (Suc 0)"
    by (simp_all add: dets_pair_def trks_pair_def)
  have l: "linear_assignment ref_lib (map (map fneg) (iou_batch dets_pair trks_pair))
            = Inr [(0, 0), (1, 1)]"
    by (simp add: M linear_assignment_def ref_lib_def ref_linear_sum_assignment_def Let_def
          assignment_cost_def upt_rec)
  have gen: "associate_general ref_lib dets_pair trks_pair (Fin (3/10)) = Inr ([(0, 0)], [1], [1])"
    using l by (simp add: associate_general_def M len general_path_def post_filter_def Let_def)
  have low: "flt (iou (dets_pair ! 1) (trks_pair ! 1)) (Fin (3/10))"
    by (simp add: iou_def dets_pair_def trks_pair_def det1_def Let_def)
  from fast_path_agrees_when_contained [OF h1 h2 h3, of ref_lib]
  have "associate_detections_to_trackers ref_lib dets_pair trks_pair (Fin (3/10)) =
           Inr (over_threshold dets_pair trks_pair (Fin (3/10)),
                filter (\<lambda>d. d \<notin> fst ` set (over_threshold dets_pair trks_pair (Fin (3/10))))
                       [0..<length dets_pair],
                filter (\<lambda>t. t \<notin> snd ` set (over_threshold dets_pair trks_pair (Fin (3/10))))
                       [0..<length trks_pair])"
    by blast
  then have fast: "associate_detections_to_trackers ref_lib dets_pair trks_pair (Fin (3/10))
       = Inr ([(0, 0)], [1], [1])"
    by (simp add: w len)
  from h1 h2 h3 l w low gen fast show ?thesis by simp
qed


end
